theory Spec2Isabelle
  imports Main
begin

section \<open>Strings and arrays of the run time\<close>

text \<open>
  Strings are lists of 8-bit characters (the Latin-1 code units of a JavaScript string).
  The functions of this section are the library operations that \<open>respondPattern\<close>
  applies to the printed form of a regular expression: \<open>split\<close>, \<open>shift\<close>, \<open>pop\<close>,
  \<open>join\<close>, \<open>toLowerCase\<close> and the global \<open>replace\<close> that escapes the bot's name.
\<close>

abbreviation backslash :: char where
  "backslash \<equiv> CHR 0x5C"

text \<open>\<open>s.split(c)\<close> for a one-character separator: \<open>"".split("/")\<close> is \<open>[""]\<close>.\<close>

fun split :: "char \<Rightarrow> string \<Rightarrow> string list" where
  "split c [] = [[]]"
| "split c (x # xs) =
     (if x = c then [] # split c xs
      else (case split c xs of
              [] \<Rightarrow> [[x]]
            | y # ys \<Rightarrow> (x # y) # ys))"

text \<open>\<open>a.join(c)\<close>: the elements separated by \<open>c\<close>; the empty array gives \<open>""\<close>.\<close>

fun join :: "char \<Rightarrow> string list \<Rightarrow> string" where
  "join c [] = []"
| "join c [x] = x"
| "join c (x # y # ys) = x @ c # join c (y # ys)"

text \<open>
  \<open>a.shift()\<close> removes the first element and \<open>a.pop()\<close> the last one; on the empty array
  both leave it empty and return \<open>undefined\<close>. \<open>shifted\<close> and \<open>popped\<close> are the arrays
  left behind, \<open>pop\<close> is the value returned (\<open>None\<close> for \<open>undefined\<close>).
\<close>

definition shifted :: "'a list \<Rightarrow> 'a list" where
  "shifted a = (case a of [] \<Rightarrow> [] | x # xs \<Rightarrow> xs)"

definition pop :: "'a list \<Rightarrow> 'a option" where
  "pop a = (if a = [] then None else Some (last a))"

definition popped :: "'a list \<Rightarrow> 'a list" where
  "popped a = butlast a"

text \<open>
  White space as the class \<open>\s\<close> sees it, among 8-bit characters: tab, line feed,
  vertical tab, form feed, carriage return, space and the no-break space.
\<close>

definition isSpace :: "char \<Rightarrow> bool" where
  "isSpace c = (of_char c \<in> {9, 10, 11, 12, 13, 32, 160 :: nat})"

text \<open>The characters of the class \<open>[-[\]{}()*+?.,\\^$|#\s]\<close>.\<close>

definition isSpecial :: "char \<Rightarrow> bool" where
  "isSpecial c = (c \<in> set ''-[]{}()*+?.,^$|#'' \<or> c = backslash \<or> isSpace c)"

text \<open>\<open>s.replace(/[-[\]{}()*+?.,\\^$|#\s]/g, "\\$&")\<close>: a backslash before each match.\<close>

fun escapeName :: "string \<Rightarrow> string" where
  "escapeName [] = []"
| "escapeName (c # cs) =
     (if isSpecial c then backslash # c # escapeName cs else c # escapeName cs)"

text \<open>
  \<open>toLowerCase\<close> on 8-bit characters: \<open>A\<close>..\<open>Z\<close> and the Latin-1 capitals
  (\<open>0xC0\<close>..\<open>0xDE\<close> without the multiplication sign \<open>0xD7\<close>) move up by 32.
\<close>

definition lowerChar :: "char \<Rightarrow> char" where
  "lowerChar c =
     (let n = (of_char c :: nat) in
      if (65 \<le> n \<and> n \<le> 90) \<or> (192 \<le> n \<and> n \<le> 222 \<and> n \<noteq> 215)
      then char_of (n + 32) else c)"

definition toLowerCase :: "string \<Rightarrow> string" where
  "toLowerCase s = map lowerChar s"

section \<open>Patterns\<close>

text \<open>
  The pattern argument of \<open>hear\<close> and \<open>respond\<close> has the type \<open>RegExp | string\<close>.
  A regular expression is its source text and its flags; \<open>RegExp src fl\<close> also stands
  for the call \<open>new RegExp(src, fl)\<close>, so what \<open>respondPattern\<close> returns for a regular
  expression is the pair of arguments it gives to the constructor.
\<close>

datatype pattern = Str string | RegExp (source: string) (flags: string)

text \<open>\<open>regex.toString()\<close>: the source between slashes, then the flags.\<close>

fun toString :: "pattern \<Rightarrow> string" where
  "toString (Str s) = s"
| "toString (RegExp src fl) = CHR ''/'' # src @ CHR ''/'' # fl"

section \<open>The logger\<close>

text \<open>
  The winston logger is modelled by what it is given: each call adds its level and its
  arguments, printed as strings, to the end of the log.
\<close>

datatype level = Debug | Info | Warn | Err

type_synonym log_entry = "level \<times> string list"

section \<open>Envelopes, messages and adapters\<close>

text \<open>
  Modelled from the spec: the types \<open>Envelope\<close> and \<open>Message\<close>, whose files
  \<open>envelope.ts\<close> and \<open>message.ts\<close> are not among the sources. An envelope is
  "\<open>{ user, room, adapterName }\<close>"; the code of \<open>Robot\<close> reads these three fields and
  the \<open>name\<close> of the room. A message is "\<open>{ text, user, room }\<close> (as \<open>TextMessage\<close>
  variant) or other payload variants".
\<close>

datatype room = Room (room_name: string)

record envelope =
  user :: string
  room :: room
  adapterName :: string

datatype message = TextMessage string string room | OtherMessage string

text \<open>
  An argument passed to an adapter method is a string or an array. The methods collect
  their arguments after the envelope in a rest parameter, which is the list of the
  arguments given.
\<close>

datatype arg = S string | Arr "arg list"

text \<open>The printed form of an argument in a template: an array prints its elements
  separated by commas.\<close>

fun argString :: "arg \<Rightarrow> string" where
  "argString (S s) = s"
| "argString (Arr xs) = join CHR '','' (map argString xs)"

text \<open>
  Three kinds of exception occur: an \<open>Error\<close> thrown by the code with its message,
  the \<open>TypeError\<close> of the run time when a property of \<open>undefined\<close> is read or a value
  that is not a function is called, and the \<open>SyntaxError\<close> of the constructor of
  regular expressions.
\<close>

datatype error = Error string | TypeError string | SyntaxError string

text \<open>
  An operation on a state either returns with the new state (\<open>Inr\<close>) or throws, with
  the state as it was when the exception left the operation (\<open>Inl\<close>).
\<close>

type_synonym 's result = "(error \<times> 's) + 's"

text \<open>An operation that also returns a value.\<close>

type_synonym ('a, 's) outcome = "(error \<times> 's) + ('a \<times> 's)"

text \<open>
  The chat backends behind the adapters are a state of type \<open>'w\<close> that only the
  adapters touch. An adapter object is its \<open>adapterName\<close> (which the base class declares
  and leaves unset) and the methods a subclass can override.
\<close>

type_synonym 'w adapter_method = "envelope \<Rightarrow> arg list \<Rightarrow> 'w \<Rightarrow> 'w result"

record 'w adapter =
  adapter_name :: "string option"
  send_m :: "'w adapter_method"
  reply_m :: "'w adapter_method"
  topic_m :: "'w adapter_method"
  play_m :: "'w adapter_method"

text \<open>The methods of the base class \<open>Adapter\<close>: \<open>send\<close>, \<open>reply\<close>, \<open>topic\<close> and
  \<open>play\<close> have empty bodies.\<close>

definition Adapter_send :: "'w adapter_method" where
  "Adapter_send envelope strings w = Inr w"

definition Adapter_reply :: "'w adapter_method" where
  "Adapter_reply envelope strings w = Inr w"

definition Adapter_topic :: "'w adapter_method" where
  "Adapter_topic envelope strings w = Inr w"

definition Adapter_play :: "'w adapter_method" where
  "Adapter_play envelope strings w = Inr w"

text \<open>An instance of the base class itself.\<close>

definition Adapter :: "'w adapter" where
  "Adapter = \<lparr>adapter_name = None, send_m = Adapter_send, reply_m = Adapter_reply,
     topic_m = Adapter_topic, play_m = Adapter_play\<rparr>"

text \<open>
  \<open>emote(envelope, ...strings) { this.send(envelope, strings); }\<close>: the call goes to
  the \<open>send\<close> of the object itself, with the array of the collected strings as its one
  argument after the envelope.
\<close>

definition Adapter_emote :: "'w adapter \<Rightarrow> 'w adapter_method" where
  "Adapter_emote this envelope strings w = send_m this envelope [Arr strings] w"

section \<open>The robot\<close>

text \<open>
  The fields of \<open>Robot\<close> that the modelled methods use, and the state of the backends.
  \<open>adapters\<close> is a plain object used as a dictionary from names to adapters.
\<close>

record ('l, 'w) robot =
  name :: string
  pluginListeners :: "'l list"
  adapters :: "string \<rightharpoonup> 'w adapter"
  logger :: "log_entry list"
  world :: 'w

definition log :: "level \<Rightarrow> string list \<Rightarrow> ('l, 'w) robot \<Rightarrow> ('l, 'w) robot" where
  "log lv args rb = rb\<lparr>logger := logger rb @ [(lv, args)]\<rparr>"

text \<open>
  The class \<open>TextListener\<close> is in \<open>listener.ts\<close>, which is not among the sources. The
  type of the listeners is therefore a type variable of the robot, and the two things
  the code of \<open>Robot\<close> does with a listener are parameters: its construction, in
  \<open>hear\<close> and \<open>respond\<close>, and its \<open>call\<close>, in \<open>receive\<close>. The constructor is handed
  the robot: it may log, and it may throw; what it makes of the pattern is its own
  affair.
\<close>

type_synonym ('l, 'o, 'c, 'w) constructor =
  "pattern \<Rightarrow> 'o \<Rightarrow> 'c \<Rightarrow> ('l, 'w) robot \<Rightarrow> ('l, ('l, 'w) robot) outcome"

subsection \<open>hear, respond and respondPattern\<close>

text \<open>
  \<open>hear\<close> logs, constructs the listener and pushes it. An exception of the constructor
  leaves \<open>hear\<close> before the push.
\<close>

definition hear ::
  "('l, 'o, 'c, 'w) constructor \<Rightarrow> pattern \<Rightarrow> 'o \<Rightarrow> 'c \<Rightarrow> ('l, 'w) robot \<Rightarrow> ('l, 'w) robot result" where
  "hear newTextListener regex options callback rb =
     (let rb1 = log Debug [''[Robot] creating hear listener for regex'', toString regex] rb
      in case newTextListener regex options callback rb1 of
           Inl (e, rb2) \<Rightarrow> Inl (e, rb2)
         | Inr (listener, rb2) \<Rightarrow>
             Inr (rb2\<lparr>pluginListeners := pluginListeners rb2 @ [listener]\<rparr>))"

text \<open>The two warnings about an anchored pattern.\<close>

definition anchorWarning :: string where
  "anchorWarning = ''Anchors don'' @ CHR 0x27 # ''t work well with respond, perhaps you want to use ''
     @ CHR 0x27 # ''hear'' @ [CHR 0x27]"

definition regexWarning :: "pattern \<Rightarrow> string" where
  "regexWarning regex = ''The regex in question was '' @ toString regex"

text \<open>
  \<open>new RegExp(src, fl)\<close> returns the regular expression or throws a \<open>SyntaxError\<close>.
  Which sources and flags the constructor of the run time accepts is a parameter.
\<close>

definition newRegExp :: "(string \<Rightarrow> string \<Rightarrow> bool) \<Rightarrow> string \<Rightarrow> string \<Rightarrow> error + pattern" where
  "newRegExp accepts src fl =
     (if accepts src fl then Inr (RegExp src fl)
      else Inl (SyntaxError (''Invalid regular expression: /'' @ src @ ''/'')))"

text \<open>
  \<open>respondPattern\<close> returns the pattern for the listener and the robot with the
  warnings logged, or throws what the constructor of the regular expression throws.
  A string is returned inside a template at once. For a regular expression, \<open>re\<close> is
  the printed form cut at the slashes, without its first piece; the last piece is
  taken off as the modifiers, and the rest is joined again.
\<close>

definition respondPattern ::
  "(string \<Rightarrow> string \<Rightarrow> bool) \<Rightarrow> pattern \<Rightarrow> ('l, 'w) robot \<Rightarrow> (pattern, ('l, 'w) robot) outcome" where
  "respondPattern accepts regex rb =
     (let name' = escapeName (name rb) in
      case regex of
        Str s \<Rightarrow> Inr (Str (''{:BOT_NAME} '' @ s), rb)
      | RegExp _ _ \<Rightarrow>
          (let re0 = shifted (split CHR ''/'' (toString regex));
               modifiers0 = pop re0;
               re = popped re0;
               modifiers = (case modifiers0 of
                              None \<Rightarrow> ''i''
                            | Some m \<Rightarrow> if m = [] then ''i'' else m);
               rb1 = (if re \<noteq> [] \<and> hd re \<noteq> [] \<and> hd (hd re) = CHR ''^''
                      then log Warn [regexWarning regex] (log Warn [anchorWarning] rb)
                      else rb);
               pattern = join CHR ''/'' re
           in case newRegExp accepts
                     (CHR ''^'' # backslash # ''s*[@]*'' @ toLowerCase name'
                        @ ''[:,]?'' @ backslash # ''s*(?:'' @ pattern @ '')'') modifiers of
                Inl e \<Rightarrow> Inl (e, rb1)
              | Inr p \<Rightarrow> Inr (p, rb1)))"

text \<open>
  \<open>respond\<close> logs, evaluates \<open>this.respondPattern(regex)\<close>, constructs the listener
  with the result and pushes it. An exception of \<open>respondPattern\<close> or of the
  constructor leaves \<open>respond\<close> before the push.
\<close>

definition respond ::
  "('l, 'o, 'c, 'w) constructor \<Rightarrow> (string \<Rightarrow> string \<Rightarrow> bool) \<Rightarrow> pattern \<Rightarrow> 'o \<Rightarrow> 'c \<Rightarrow>
   ('l, 'w) robot \<Rightarrow> ('l, 'w) robot result" where
  "respond newTextListener accepts regex options callback rb =
     (let rb1 = log Debug [''[Robot] creating respond listener for regex'', toString regex] rb
      in case respondPattern accepts regex rb1 of
           Inl (e, rb2) \<Rightarrow> Inl (e, rb2)
         | Inr (p, rb2) \<Rightarrow>
             (case newTextListener p options callback rb2 of
                Inl (e, rb3) \<Rightarrow> Inl (e, rb3)
              | Inr (listener, rb3) \<Rightarrow>
                  Inr (rb3\<lparr>pluginListeners := pluginListeners rb3 @ [listener]\<rparr>)))"

text \<open>
  For comparison: the wrapping as the specification writes it,
  \<open>^\s*[@]*<botname>[:,]?\s*(?:<pattern>)\<close>, with the bot's name escaped and in lower
  case.
\<close>

definition wrapped :: "string \<Rightarrow> string \<Rightarrow> string" where
  "wrapped botname p =
     CHR ''^'' # backslash # ''s*[@]*'' @ toLowerCase (escapeName botname)
       @ ''[:,]?'' @ backslash # ''s*(?:'' @ p @ '')''"

subsection \<open>send and reply\<close>

text \<open>
  \<open>this.adapters[name]\<close> reads a property of a plain object: an own property is the
  adapter stored under the name; a name that is not an own property is looked up in
  \<open>Object.prototype\<close>, whose members are functions and objects (all truthy, none
  of them with a \<open>send\<close> or \<open>reply\<close> property); any other name gives \<open>undefined\<close>.
\<close>

definition objectPrototypeKeys :: "string list" where
  "objectPrototypeKeys =
     [''constructor'', ''hasOwnProperty'', ''isPrototypeOf'', ''propertyIsEnumerable'',
      ''toLocaleString'', ''toString'', ''valueOf'', ''__proto__'',
      ''__defineGetter__'', ''__defineSetter__'', ''__lookupGetter__'', ''__lookupSetter__'']"

datatype 'w member = Undefined | Own "'w adapter" | Inherited string

definition getAdapter :: "(string \<rightharpoonup> 'w adapter) \<Rightarrow> string \<Rightarrow> 'w member" where
  "getAdapter reg n =
     (case reg n of
        Some a \<Rightarrow> Own a
      | None \<Rightarrow> if n \<in> set objectPrototypeKeys then Inherited n else Undefined)"

text \<open>An object without a \<open>toString\<close> of its own prints as \<open>[object Object]\<close>.\<close>

definition roomString :: "room \<Rightarrow> string" where
  "roomString r = ''[object Object]''"

text \<open>\<open>if (!Array.isArray(messages)) messages = [messages]\<close>\<close>

definition asArray :: "arg \<Rightarrow> arg" where
  "asArray messages = (case messages of Arr xs \<Rightarrow> Arr xs | S s \<Rightarrow> Arr [S s])"

text \<open>The call of an adapter method from the robot: the method changes the backends,
  and an exception it throws passes through the robot's method.\<close>

definition invoke :: "'w adapter_method \<Rightarrow> envelope \<Rightarrow> arg list \<Rightarrow> ('l, 'w) robot \<Rightarrow> ('l, 'w) robot result" where
  "invoke m envelope args rb =
     (case m envelope args (world rb) of
        Inl (e, w) \<Rightarrow> Inl (e, rb\<lparr>world := w\<rparr>)
      | Inr w \<Rightarrow> Inr (rb\<lparr>world := w\<rparr>))"

definition reply :: "envelope \<Rightarrow> arg \<Rightarrow> ('l, 'w) robot \<Rightarrow> ('l, 'w) robot result" where
  "reply envelope messages rb =
     (let rb1 = log Debug [''[Robot] Attempting to reply to '' @ user envelope @ '' in #''
                   @ room_name (room envelope) @ '', message: '' @ argString messages] rb;
          messages' = asArray messages
      in case getAdapter (adapters rb1) (adapterName envelope) of
           Undefined \<Rightarrow> Inl (TypeError ''Cannot read property reply of undefined'', rb1)
         | Inherited k \<Rightarrow> Inl (TypeError ''reply is not a function'', rb1)
         | Own adapter \<Rightarrow> invoke (reply_m adapter) envelope [messages'] rb1)"

definition send :: "envelope \<Rightarrow> arg \<Rightarrow> ('l, 'w) robot \<Rightarrow> ('l, 'w) robot result" where
  "send envelope messages rb =
     (let rb1 = log Debug [''[Robot] Sending in '' @ roomString (room envelope) @ '' via ''
                   @ adapterName envelope @ '': '' @ argString messages] rb;
          messages' = asArray messages
      in case getAdapter (adapters rb1) (adapterName envelope) of
           Undefined \<Rightarrow> Inl (Error (''[Robot] Invalid adapter name: '' @ adapterName envelope), rb1)
         | Inherited k \<Rightarrow> Inl (TypeError ''adapter.send is not a function'', rb1)
         | Own adapter \<Rightarrow> invoke (send_m adapter) envelope [messages'] rb1)"

subsection \<open>receive\<close>

text \<open>
  What \<open>listener.call(msg, adapter, callback)\<close> does is a parameter: a function from
  the listener, the arguments and the robot to the robot afterwards, or to an exception.
  An invocation is the listener called and the three arguments it was called with.
\<close>

type_synonym ('l, 'w, 'k) call =
  "'l \<Rightarrow> message \<Rightarrow> 'w adapter \<Rightarrow> 'k option \<Rightarrow> ('l, 'w) robot \<Rightarrow> ('l, 'w) robot result"

type_synonym ('l, 'w, 'k) invocation = "'l \<times> message \<times> 'w adapter \<times> 'k option"

text \<open>
  \<open>for (let listener of this.pluginListeners) listener.call(msg, adapter, callback)\<close>.
  The iterator of an array keeps an index and compares it with the length of the
  array at every step, so it sees what a call pushes onto the array. \<open>dispatch\<close> is
  the loop from index \<open>i\<close>; beside the outcome it returns the invocations made, in
  order. A loop that never ends has the value \<open>None\<close>.
\<close>

partial_function (option) dispatch ::
  "('l, 'w, 'k) call \<Rightarrow> message \<Rightarrow> 'w adapter \<Rightarrow> 'k option \<Rightarrow> nat \<Rightarrow>
   ('l, 'w, 'k) invocation list \<Rightarrow> ('l, 'w) robot \<Rightarrow>
   (('l, 'w, 'k) invocation list \<times> ('l, 'w) robot result) option" where
  "dispatch call msg adapter callback i tr rb =
     (if i < length (pluginListeners rb)
      then (let listener = pluginListeners rb ! i;
                tr' = tr @ [(listener, msg, adapter, callback)]
            in case call listener msg adapter callback rb of
                 Inl (e, rb') \<Rightarrow> Some (tr', Inl (e, rb'))
               | Inr rb' \<Rightarrow> dispatch call msg adapter callback (Suc i) tr' rb')
      else Some (tr, Inr rb))"

text \<open>The message is \<open>None\<close> when it is \<open>null\<close> or \<open>undefined\<close>; the cast
  \<open>message as TextMessage\<close> does nothing when the program runs.\<close>

definition receive ::
  "('l, 'w, 'k) call \<Rightarrow> message option \<Rightarrow> 'w adapter \<Rightarrow> 'k option \<Rightarrow> ('l, 'w) robot \<Rightarrow>
   (('l, 'w, 'k) invocation list \<times> ('l, 'w) robot result) option" where
  "receive call message adapter callback rb =
     (case message of
        None \<Rightarrow> Some ([], Inr (log Info [''[Robot] blank message error''] rb))
      | Some msg \<Rightarrow> dispatch call msg adapter callback 0 [] rb)"

text \<open>\<open>Adapter.receive(message) { this.robot.receive(message, this, null); }\<close>\<close>

definition Adapter_receive ::
  "('l, 'w, 'k) call \<Rightarrow> 'w adapter \<Rightarrow> message option \<Rightarrow> ('l, 'w) robot \<Rightarrow>
   (('l, 'w, 'k) invocation list \<times> ('l, 'w) robot result) option" where
  "Adapter_receive call this message rb = receive call message this None rb"

text \<open>
  For comparison with the loop: the calls of a list of listeners applied one after
  the other, each once, in the order of the list, each to the robot the one before
  left; an exception ends the sequence.
\<close>

fun callEach ::
  "('l, 'w, 'k) call \<Rightarrow> message \<Rightarrow> 'w adapter \<Rightarrow> 'k option \<Rightarrow> 'l list \<Rightarrow> ('l, 'w) robot \<Rightarrow>
   ('l, 'w) robot result" where
  "callEach call msg adapter callback [] rb = Inr rb"
| "callEach call msg adapter callback (l # ls) rb =
     (case call l msg adapter callback rb of
        Inl (e, rb') \<Rightarrow> Inl (e, rb')
      | Inr rb' \<Rightarrow> callEach call msg adapter callback ls rb')"

subsection \<open>Calling a listener\<close>

text \<open>
  Modelled from the spec: the type \<open>Listener\<close>, "\<open>{ pattern, options, callback }\<close>", of
  the absent \<open>listener.ts\<close>.
\<close>

datatype ('o, 'c) listener = TextListener pattern 'o 'c

text \<open>
  Modelled from the spec: the type \<open>Response\<close>, whose file \<open>response.ts\<close> is not among
  the sources. A response is "bound to one (Message, matched Listener) pair": it
  carries the groups of the match, the message and the adapter the message came
  through (the envelope of a reply is made from the last two).
\<close>

datatype 'w response = Response (res_match: "string list") (res_message: message)
  (res_adapter: "'w adapter")

definition errorString :: "error \<Rightarrow> string" where
  "errorString e =
     (case e of
        Error m \<Rightarrow> ''Error: '' @ m
      | TypeError m \<Rightarrow> ''TypeError: '' @ m
      | SyntaxError m \<Rightarrow> ''SyntaxError: '' @ m)"

text \<open>
  Modelled from the spec: \<open>Listener.call\<close> of \<open>listener.ts\<close>, which is not among the
  sources. "At dispatch time, test the message text against the compiled pattern; on
  match, construct a Response binding the match groups, the Envelope, and the firing
  adapter, and invoke the listener's callback with that Response. Each listener catches
  and logs (never propagates) exceptions raised by its own callback." The test of a
  pattern against a message (\<open>matcher\<close>, giving the groups of a match) and what a
  callback does (\<open>run\<close>) are parameters.
\<close>

definition Listener_call ::
  "(pattern \<Rightarrow> message \<Rightarrow> string list option) \<Rightarrow>
   ('c \<Rightarrow> 'w response \<Rightarrow> (('o, 'c) listener, 'w) robot \<Rightarrow> (('o, 'c) listener, 'w) robot result) \<Rightarrow>
   (('o, 'c) listener, 'w, 'k) call" where
  "Listener_call matcher run listener msg adapter callback rb =
     (case listener of
        TextListener p options cb \<Rightarrow>
          (case matcher p msg of
             None \<Rightarrow> Inr rb
           | Some groups \<Rightarrow>
               (case run cb (Response groups msg adapter) rb of
                  Inl (e, rb') \<Rightarrow> Inr (log Err [''[Listener] callback failed'', toString p, errorString e] rb')
                | Inr rb' \<Rightarrow> Inr rb')))"

section \<open>Regular expressions of the run time\<close>

text \<open>
  What \<open>regex.test(text)\<close> gives, for the part of the syntax that the patterns of
  the examples use: characters, \<open>.\<close>, \<open>\s\<close>, an escaped punctuation character, a class
  of plain characters \<open>[...]\<close>, the group \<open>(?:...)\<close>, the quantifiers \<open>*\<close>, \<open>+\<close> and
  \<open>?\<close>, the alternative \<open>|\<close>, and the assertions \<open>^\<close> and \<open>$\<close>; with the flags \<open>i\<close>
  and \<open>m\<close>. A source or a flag outside this part has no value here (\<open>None\<close>).
\<close>

datatype atom = Lit char | Dot | Space | Among "char list"

datatype re = Atom atom | Bol | Eol | Eps | Seq re re | Alt re re | Opt re | Star re | Plus re

definition isSyntax :: "char \<Rightarrow> bool" where
  "isSyntax c = (c \<in> set ''^$.*+?()[]{}|'' \<or> c = backslash)"

text \<open>The members of a class, up to the closing bracket.\<close>

fun parseClass :: "string \<Rightarrow> char list \<Rightarrow> (char list \<times> string) option" where
  "parseClass [] acc = None"
| "parseClass (c # cs) acc =
     (if c = CHR '']'' then Some (rev acc, cs)
      else if c = backslash \<or> c = CHR ''-'' \<or> c = CHR ''^'' \<or> c = CHR ''['' then None
      else parseClass cs (c # acc))"

definition quantified :: "re \<Rightarrow> string \<Rightarrow> re \<times> string" where
  "quantified a s =
     (case s of
        [] \<Rightarrow> (a, [])
      | c # cs \<Rightarrow>
          if c = CHR ''*'' then (Star a, cs)
          else if c = CHR ''+'' then (Plus a, cs)
          else if c = CHR ''?'' then (Opt a, cs)
          else (a, s))"

text \<open>
  The grammar: a disjunction is alternatives separated by \<open>|\<close>, an alternative is a
  sequence of terms, a term is an assertion or an atom with an optional quantifier.
  The first argument bounds the depth of the descent.
\<close>

fun parseDisjunction :: "nat \<Rightarrow> string \<Rightarrow> (re \<times> string) option"
  and parseAlternative :: "nat \<Rightarrow> string \<Rightarrow> (re \<times> string) option"
  and parseTerm :: "nat \<Rightarrow> string \<Rightarrow> (re \<times> string) option"
  and parseAtom :: "nat \<Rightarrow> string \<Rightarrow> (re \<times> string) option" where
  "parseDisjunction 0 s = None"
| "parseDisjunction (Suc n) s =
     (case parseAlternative n s of
        None \<Rightarrow> None
      | Some (a, rest) \<Rightarrow>
          (case rest of
             [] \<Rightarrow> Some (a, [])
           | c # cs \<Rightarrow>
               if c = CHR ''|''
               then (case parseDisjunction n cs of
                       None \<Rightarrow> None
                     | Some (d, rest') \<Rightarrow> Some (Alt a d, rest'))
               else Some (a, rest)))"
| "parseAlternative 0 s = None"
| "parseAlternative (Suc n) s =
     (case s of
        [] \<Rightarrow> Some (Eps, [])
      | c # cs \<Rightarrow>
          if c = CHR ''|'' \<or> c = CHR '')'' then Some (Eps, s)
          else (case parseTerm n s of
                  None \<Rightarrow> None
                | Some (t, rest) \<Rightarrow>
                    (case parseAlternative n rest of
                       None \<Rightarrow> None
                     | Some (r, rest') \<Rightarrow> Some (Seq t r, rest'))))"
| "parseTerm 0 s = None"
| "parseTerm (Suc n) s =
     (case s of
        [] \<Rightarrow> None
      | c # cs \<Rightarrow>
          if c = CHR ''^'' then Some (Bol, cs)
          else if c = CHR ''$'' then Some (Eol, cs)
          else (case parseAtom n s of
                  None \<Rightarrow> None
                | Some (a, rest) \<Rightarrow> Some (quantified a rest)))"
| "parseAtom 0 s = None"
| "parseAtom (Suc n) s =
     (case s of
        [] \<Rightarrow> None
      | c # cs \<Rightarrow>
          if c = CHR ''('' then
            (case cs of
               q # k # rest \<Rightarrow>
                 if q = CHR ''?'' \<and> k = CHR '':''
                 then (case parseDisjunction n rest of
                         None \<Rightarrow> None
                       | Some (d, rest') \<Rightarrow>
                           (case rest' of
                              [] \<Rightarrow> None
                            | p # rest'' \<Rightarrow> if p = CHR '')'' then Some (d, rest'') else None))
                 else None
             | _ \<Rightarrow> None)
          else if c = CHR ''['' then
            (case parseClass cs [] of
               None \<Rightarrow> None
             | Some (members, rest) \<Rightarrow> Some (Atom (Among members), rest))
          else if c = backslash then
            (case cs of
               [] \<Rightarrow> None
             | e # rest \<Rightarrow>
                 if e = CHR ''s'' then Some (Atom Space, rest)
                 else if isSpecial e then Some (Atom (Lit e), rest)
                 else None)
          else if c = CHR ''.'' then Some (Atom Dot, cs)
          else if isSyntax c then None
          else Some (Atom (Lit c), cs))"

definition parse :: "string \<Rightarrow> re option" where
  "parse s = (case parseDisjunction (4 * length s + 4) s of
                Some (r, []) \<Rightarrow> Some r
              | _ \<Rightarrow> None)"

definition isLineTerminator :: "char \<Rightarrow> bool" where
  "isLineTerminator c = (of_char c \<in> {10, 13 :: nat})"

text \<open>With the flag \<open>i\<close>, characters are compared without their case.\<close>

fun atomMatches :: "bool \<Rightarrow> atom \<Rightarrow> char \<Rightarrow> bool" where
  "atomMatches ic (Lit c) x = (if ic then lowerChar c = lowerChar x else c = x)"
| "atomMatches ic Dot x = (\<not> isLineTerminator x)"
| "atomMatches ic Space x = isSpace x"
| "atomMatches ic (Among cs) x = (if ic then lowerChar x \<in> set (map lowerChar cs) else x \<in> set cs)"

text \<open>The positions that repeated steps of \<open>f\<close> reach from the positions \<open>ps\<close>.\<close>

fun closure :: "nat \<Rightarrow> (nat \<Rightarrow> nat list) \<Rightarrow> nat list \<Rightarrow> nat list" where
  "closure 0 f ps = ps"
| "closure (Suc n) f ps =
     (let new = filter (\<lambda>q. q \<notin> set ps) (remdups (concat (map f ps)))
      in if new = [] then ps else closure n f (ps @ new))"

text \<open>
  \<open>ends ic ml t r i\<close>: the positions of the text \<open>t\<close> at which a match of \<open>r\<close> that
  starts at position \<open>i\<close> can end; \<open>ic\<close> and \<open>ml\<close> are the flags \<open>i\<close> and \<open>m\<close>. Without
  \<open>m\<close>, \<open>^\<close> holds at position 0 only.
\<close>

fun ends :: "bool \<Rightarrow> bool \<Rightarrow> string \<Rightarrow> re \<Rightarrow> nat \<Rightarrow> nat list" where
  "ends ic ml t (Atom a) i = (if i < length t \<and> atomMatches ic a (t ! i) then [Suc i] else [])"
| "ends ic ml t Bol i = (if i = 0 \<or> (ml \<and> isLineTerminator (t ! (i - 1))) then [i] else [])"
| "ends ic ml t Eol i =
     (if i = length t \<or> (ml \<and> i < length t \<and> isLineTerminator (t ! i)) then [i] else [])"
| "ends ic ml t Eps i = [i]"
| "ends ic ml t (Seq r s) i = concat (map (ends ic ml t s) (ends ic ml t r i))"
| "ends ic ml t (Alt r s) i = ends ic ml t r i @ ends ic ml t s i"
| "ends ic ml t (Opt r) i = i # ends ic ml t r i"
| "ends ic ml t (Star r) i = closure (length t) (ends ic ml t r) [i]"
| "ends ic ml t (Plus r) i =
     concat (map (\<lambda>j. closure (length t) (ends ic ml t r) [j]) (ends ic ml t r i))"

text \<open>\<open>regex.test(text)\<close>: whether a match starts at some position of the text.\<close>

definition test :: "pattern \<Rightarrow> string \<Rightarrow> bool option" where
  "test regex text =
     (case regex of
        Str s \<Rightarrow> None
      | RegExp src fl \<Rightarrow>
          if set fl \<subseteq> set ''im''
          then (case parse src of
                  None \<Rightarrow> None
                | Some r \<Rightarrow>
                    Some (list_ex (\<lambda>i. ends (CHR ''i'' \<in> set fl) (CHR ''m'' \<in> set fl) text r i \<noteq> [])
                            [0 ..< Suc (length text)]))
          else None)"

section \<open>Example configurations\<close>

text \<open>
  The concrete robots, adapters and listeners at which the theorems below are
  evaluated. The backends of the examples are the list of the calls that reached them.
\<close>

type_synonym backend = "(string \<times> envelope \<times> arg list) list"

text \<open>A subclass of \<open>Adapter\<close> that overrides \<open>send\<close> and \<open>reply\<close> and records each call.\<close>

definition recorder :: "backend adapter" where
  "recorder = Adapter\<lparr>adapter_name := Some ''irc'',
     send_m := (\<lambda>envelope strings w. Inr (w @ [(''send'', envelope, strings)])),
     reply_m := (\<lambda>envelope strings w. Inr (w @ [(''reply'', envelope, strings)]))\<rparr>"

text \<open>A constructor of listeners that keeps its arguments and does nothing else.\<close>

definition storeListener :: "(('o, 'c) listener, 'o, 'c, 'w) constructor" where
  "storeListener p options cb rb = Inr (TextListener p options cb, rb)"

text \<open>
  A constructor of regular expressions that refuses, under the flag \<open>u\<close>, a source in
  which a backslash stands before a character that has no escape (as in \<open>\-\<close>), and
  accepts everything else.
\<close>

fun escapesLegal :: "string \<Rightarrow> bool" where
  "escapesLegal [] = True"
| "escapesLegal [c] = (c \<noteq> backslash)"
| "escapesLegal (c # d # cs) =
     (if c = backslash
      then (d \<in> set ''^$.*+?()[]{}|/dDsSwWbBfnrtvcxupPk0123456789'' \<or> d = backslash) \<and> escapesLegal cs
      else escapesLegal (d # cs))"

definition engineAccepts :: "string \<Rightarrow> string \<Rightarrow> bool" where
  "engineAccepts src fl = (if CHR ''u'' \<in> set fl then escapesLegal src else True)"

text \<open>
  Four callbacks: one does nothing, one sends the text of the message through the
  adapter \<open>irc\<close>, one registers a listener with \<open>hear\<close>, one throws.
\<close>

datatype action = Quiet | Say | Register | Fail

definition irc :: envelope where
  "irc = \<lparr>user = ''ann'', room = Room ''general'', adapterName = ''irc''\<rparr>"

fun messageText :: "message \<Rightarrow> string" where
  "messageText (TextMessage t u r) = t"
| "messageText (OtherMessage x) = x"

fun act :: "action \<Rightarrow> message \<Rightarrow> ((unit, action) listener, 'w) robot \<Rightarrow> ((unit, action) listener, 'w) robot result" where
  "act Quiet msg rb = Inr rb"
| "act Say msg rb = send irc (S (messageText msg)) rb"
| "act Register msg rb = hear storeListener (Str ''late'') () Say rb"
| "act Fail msg rb = Inl (Error ''boom'', rb)"

text \<open>A listener that runs its callback on every message and lets exceptions pass.\<close>

definition plainCall :: "((unit, action) listener, 'w, 'k) call" where
  "plainCall listener msg adapter callback rb =
     (case listener of TextListener p options cb \<Rightarrow> act cb msg rb)"

definition bot :: "((unit, action) listener, backend) robot" where
  "bot = \<lparr>name = ''botname'', pluginListeners = [], adapters = [''irc'' \<mapsto> recorder],
     logger = [], world = []\<rparr>"

definition dashBot :: "((unit, action) listener, backend) robot" where
  "dashBot = bot\<lparr>name := ''my-bot''\<rparr>"

definition slack :: envelope where
  "slack = \<lparr>user = ''ann'', room = Room ''general'', adapterName = ''slack''\<rparr>"

definition hello :: message where
  "hello = TextMessage ''hello'' ''ann'' (Room ''general'')"

text \<open>Listeners with these callbacks, and robots that hold them.\<close>

definition quiet :: "string \<Rightarrow> (unit, action) listener" where
  "quiet p = TextListener (Str p) () Quiet"

definition saying :: "string \<Rightarrow> (unit, action) listener" where
  "saying p = TextListener (Str p) () Say"

definition registering :: "(unit, action) listener" where
  "registering = TextListener (Str ''first'') () Register"

definition failing :: "(unit, action) listener" where
  "failing = TextListener (Str ''bad'') () Fail"

definition quietBot :: "((unit, action) listener, backend) robot" where
  "quietBot = bot\<lparr>pluginListeners := [quiet ''a'', quiet ''b'']\<rparr>"

definition sayBot :: "((unit, action) listener, backend) robot" where
  "sayBot = bot\<lparr>pluginListeners := [saying ''a'', quiet ''b'', saying ''c'']\<rparr>"

definition registeringBot :: "((unit, action) listener, backend) robot" where
  "registeringBot = bot\<lparr>pluginListeners := [registering]\<rparr>"

definition failingBot :: "((unit, action) listener, backend) robot" where
  "failingBot = bot\<lparr>pluginListeners := [failing, saying ''good'']\<rparr>"

text \<open>A test of patterns that every message passes, with no groups.\<close>

definition matchAll :: "pattern \<Rightarrow> message \<Rightarrow> string list option" where
  "matchAll p msg = Some []"

text \<open>The callbacks of the examples as the parameter \<open>run\<close> of \<open>Listener_call\<close>.\<close>

definition runAct ::
  "action \<Rightarrow> 'w response \<Rightarrow> ((unit, action) listener, 'w) robot \<Rightarrow> ((unit, action) listener, 'w) robot result" where
  "runAct cb res rb = act cb (res_message res) rb"

text \<open>What the debug line of \<open>send\<close> is when a callback of the examples sends a text.\<close>

definition sendLine :: "string \<Rightarrow> log_entry" where
  "sendLine t = (Debug, [''[Robot] Sending in [object Object] via irc: '' @ t])"

section \<open>Cutting and joining the printed form of a regular expression\<close>

lemma split_not_Nil: "split c s \<noteq> []"
  by (induction s) (auto split: list.splits)

lemma join_split: "join c (split c s) = s"
proof (induction s)
  case Nil
  then show ?case by simp
next
  case (Cons x xs)
  show ?case
  proof (cases "x = c")
    case True
    with Cons show ?thesis
      by (cases "split c xs") (simp_all add: split_not_Nil)
  next
    case False
    with Cons show ?thesis
      by (cases "split c xs"; cases "tl (split c xs)") (auto simp: split_not_Nil)
  qed
qed

lemma split_append: "split c (a @ c # b) = split c a @ split c b"
proof (induction a)
  case Nil
  then show ?case by simp
next
  case (Cons x xs)
  then show ?case
    by (cases "split c xs") (auto simp: split_not_Nil)
qed

lemma split_no_sep: "c \<notin> set s \<Longrightarrow> split c s = [s]"
  by (induction s) auto

lemma hd_split:
  "a \<noteq> c \<Longrightarrow> (hd (split c s) \<noteq> [] \<and> hd (hd (split c s)) = a) = (s \<noteq> [] \<and> hd s = a)"
  by (cases s) (auto split: list.splits simp: split_not_Nil)

text \<open>The pieces of \<open>/src/fl\<close> after \<open>shift\<close>: the pieces of the source, then the flags.\<close>

lemma pieces_of_toString:
  assumes "CHR ''/'' \<notin> set fl"
  shows "shifted (split CHR ''/'' (toString (RegExp src fl))) = split CHR ''/'' src @ [fl]"
proof -
  have "split CHR ''/'' (src @ CHR ''/'' # fl) = split CHR ''/'' src @ [fl]"
    using assms by (simp add: split_append split_no_sep)
  then show ?thesis by (simp add: shifted_def)
qed

text \<open>What \<open>respondPattern\<close> computes for a regular expression.\<close>

lemma respondPattern_RegExp:
  assumes "CHR ''/'' \<notin> set fl"
  shows "respondPattern accepts (RegExp src fl) rb =
     (case newRegExp accepts (wrapped (name rb) src) (if fl = [] then ''i'' else fl) of
        Inl e \<Rightarrow>
          Inl (e, if src \<noteq> [] \<and> hd src = CHR ''^''
                  then log Warn [regexWarning (RegExp src fl)] (log Warn [anchorWarning] rb)
                  else rb)
      | Inr p \<Rightarrow>
          Inr (p, if src \<noteq> [] \<and> hd src = CHR ''^''
                  then log Warn [regexWarning (RegExp src fl)] (log Warn [anchorWarning] rb)
                  else rb))"
proof -
  have hd: "(hd (split CHR ''/'' src) \<noteq> [] \<and> hd (hd (split CHR ''/'' src)) = CHR ''^'')
      = (src \<noteq> [] \<and> hd src = CHR ''^'')"
    by (rule hd_split) simp
  show ?thesis
    unfolding respondPattern_def pieces_of_toString[OF assms]
    using hd by (simp add: pop_def popped_def join_split split_not_Nil Let_def wrapped_def)
qed

section \<open>Patterns given to respond\<close>

text \<open>
  C5 (as amended). For every regular expression whose source begins with \<open>^\<close>,
  \<open>respond\<close> logs the two warnings after its debug line, and the warning is not an
  error: \<open>respond\<close> goes on to build \<open>^\s*[@]*<botname>[:,]?\s*(?:^...)\<close>, the anchored
  source inside the group after the prefix with the bot's name, with the flag \<open>i\<close> or
  the flags of the expression. When the constructor of regular expressions accepts
  that, the listener is constructed from it and pushed; when it refuses, its
  \<open>SyntaxError\<close> leaves \<open>respond\<close>, with the three lines in the log and no listener
  pushed. What the pattern matches is not part of the amended claim, and neither are
  patterns given as strings.
\<close>

theorem respond_anchor_warning:
  assumes "CHR ''/'' \<notin> set fl"
  shows "respond newTextListener accepts (RegExp (CHR ''^'' # p) fl) options callback rb =
     (if accepts (wrapped (name rb) (CHR ''^'' # p)) (if fl = [] then ''i'' else fl)
      then (case newTextListener
                   (RegExp (wrapped (name rb) (CHR ''^'' # p)) (if fl = [] then ''i'' else fl))
                   options callback
                   (rb\<lparr>logger := logger rb @
                      [(Debug, [''[Robot] creating respond listener for regex'',
                                toString (RegExp (CHR ''^'' # p) fl)]),
                       (Warn, [anchorWarning]),
                       (Warn, [regexWarning (RegExp (CHR ''^'' # p) fl)])]\<rparr>) of
              Inl (e, rb') \<Rightarrow> Inl (e, rb')
            | Inr (listener, rb') \<Rightarrow>
                Inr (rb'\<lparr>pluginListeners := pluginListeners rb' @ [listener]\<rparr>))
      else Inl (SyntaxError (''Invalid regular expression: /'' @ wrapped (name rb) (CHR ''^'' # p) @ ''/''),
                rb\<lparr>logger := logger rb @
                      [(Debug, [''[Robot] creating respond listener for regex'',
                                toString (RegExp (CHR ''^'' # p) fl)]),
                       (Warn, [anchorWarning]),
                       (Warn, [regexWarning (RegExp (CHR ''^'' # p) fl)])]\<rparr>))"
  using assms
  by (simp add: respond_def respondPattern_RegExp newRegExp_def log_def Let_def)

theorem respond_anchor_warning_witness:
  "respond storeListener engineAccepts (RegExp ''^foo'' []) () Quiet bot
     = Inr (bot\<lparr>logger :=
                  [(Debug, [''[Robot] creating respond listener for regex'', ''/^foo/'']),
                   (Warn, [anchorWarning]),
                   (Warn, [''The regex in question was /^foo/''])],
                pluginListeners :=
                  [TextListener (RegExp (CHR ''^'' # backslash # ''s*[@]*botname[:,]?'' @ backslash # ''s*(?:^foo)'') ''i'')
                     () Quiet]\<rparr>)
   \<and> respond storeListener engineAccepts (RegExp ''^foo'' ''u'') () Quiet dashBot
     = Inl (SyntaxError (''Invalid regular expression: /'' @ CHR ''^'' # backslash # ''s*[@]*my''
                           @ backslash # ''-bot[:,]?'' @ backslash # ''s*(?:^foo)/''),
            dashBot\<lparr>logger :=
                  [(Debug, [''[Robot] creating respond listener for regex'', ''/^foo/u'']),
                   (Warn, [anchorWarning]),
                   (Warn, [''The regex in question was /^foo/u''])]\<rparr>)
   \<and> test (RegExp (CHR ''^'' # backslash # ''s*[@]*botname[:,]?'' @ backslash # ''s*(?:^foo)'') ''i'')
        ''botname foo'' = Some False"
proof -
  have h1: "CHR ''/'' \<notin> set ([] :: string)" by simp
  have tf: "test (RegExp (CHR ''^'' # backslash # ''s*[@]*botname[:,]?'' @ backslash # ''s*(?:^foo)'') ''i'')
        ''botname foo'' = Some False"
    by code_simp
  have h2: "CHR ''/'' \<notin> set ''u''" by simp
  have w1: "wrapped ''botname'' ''^foo''
      = CHR ''^'' # backslash # ''s*[@]*botname[:,]?'' @ backslash # ''s*(?:^foo)''"
    by (simp add: wrapped_def toLowerCase_def lowerChar_def isSpecial_def isSpace_def)
  have w2: "wrapped ''my-bot'' ''^foo''
      = CHR ''^'' # backslash # ''s*[@]*my'' @ backslash # ''-bot[:,]?'' @ backslash # ''s*(?:^foo)''"
    by (simp add: wrapped_def toLowerCase_def lowerChar_def isSpecial_def isSpace_def)
  have a1: "engineAccepts (wrapped ''botname'' ''^foo'') ''i''"
    by (simp add: engineAccepts_def)
  have a2: "\<not> engineAccepts (wrapped ''my-bot'' ''^foo'') ''u''"
    unfolding w2 by (simp add: engineAccepts_def)
  have n1: "name bot = ''botname''" and n2: "name dashBot = ''my-bot''"
    and l1: "logger bot = []" and l2: "logger dashBot = []" and p1: "pluginListeners bot = []"
    by (simp_all add: bot_def dashBot_def)
  from respond_anchor_warning[OF h1, of storeListener engineAccepts "''foo''" "()" Quiet bot] a1
  have r1: "respond storeListener engineAccepts (RegExp ''^foo'' []) () Quiet bot
     = Inr (bot\<lparr>logger :=
                  [(Debug, [''[Robot] creating respond listener for regex'', ''/^foo/'']),
                   (Warn, [anchorWarning]),
                   (Warn, [''The regex in question was /^foo/''])],
                pluginListeners :=
                  [TextListener (RegExp (wrapped ''botname'' ''^foo'') ''i'') () Quiet]\<rparr>)"
    by (simp add: n1 l1 p1 storeListener_def regexWarning_def)
  from respond_anchor_warning[OF h2, of storeListener engineAccepts "''foo''" "()" Quiet dashBot] a2
  have r2: "respond storeListener engineAccepts (RegExp ''^foo'' ''u'') () Quiet dashBot
     = Inl (SyntaxError (''Invalid regular expression: /'' @ wrapped ''my-bot'' ''^foo'' @ ''/''),
            dashBot\<lparr>logger :=
                  [(Debug, [''[Robot] creating respond listener for regex'', ''/^foo/u'']),
                   (Warn, [anchorWarning]),
                   (Warn, [''The regex in question was /^foo/u''])]\<rparr>)"
    by (simp add: n2 l2 regexWarning_def)
  from r1 r2 tf show ?thesis unfolding w1 w2 by simp
qed

text \<open>
  C5 as stated fails: the source of \<open>/^a|b/\<close> begins with \<open>^\<close>; for the bot
  \<open>botname\<close>, \<open>respondPattern\<close> logs the warnings and returns a pattern that matches
  the text \<open>botname b\<close>. And for the string \<open>^foo\<close>, \<open>respondPattern\<close> returns the
  template with nothing logged.
\<close>

theorem respond_anchored_pattern_matches:
  "respondPattern engineAccepts (Str ''^foo'') bot = Inr (Str ''{:BOT_NAME} ^foo'', bot)
   \<and> respondPattern engineAccepts (RegExp ''^a|b'' []) bot
     = Inr (RegExp (CHR ''^'' # backslash # ''s*[@]*botname[:,]?'' @ backslash # ''s*(?:^a|b)'') ''i'',
            bot\<lparr>logger := [(Warn, [anchorWarning]), (Warn, [''The regex in question was /^a|b/''])]\<rparr>)
   \<and> test (RegExp (CHR ''^'' # backslash # ''s*[@]*botname[:,]?'' @ backslash # ''s*(?:^a|b)'') ''i'')
        ''botname b'' = Some True"
proof (intro conjI)
  show "respondPattern engineAccepts (Str ''^foo'') bot = Inr (Str ''{:BOT_NAME} ^foo'', bot)"
    by (simp add: respondPattern_def)
next
  have h: "CHR ''/'' \<notin> set ([] :: string)" by simp
  show "respondPattern engineAccepts (RegExp ''^a|b'' []) bot
     = Inr (RegExp (CHR ''^'' # backslash # ''s*[@]*botname[:,]?'' @ backslash # ''s*(?:^a|b)'') ''i'',
            bot\<lparr>logger := [(Warn, [anchorWarning]), (Warn, [''The regex in question was /^a|b/''])]\<rparr>)"
    by (simp add: respondPattern_RegExp[OF h] newRegExp_def engineAccepts_def wrapped_def
        toLowerCase_def lowerChar_def isSpecial_def isSpace_def log_def regexWarning_def bot_def)
next
  show "test (RegExp (CHR ''^'' # backslash # ''s*[@]*botname[:,]?'' @ backslash # ''s*(?:^a|b)'') ''i'')
        ''botname b'' = Some True"
    by code_simp
qed

text \<open>
  C6. For every regular expression given to \<open>respond\<close>, \<open>respondPattern\<close> builds the
  result with the flag \<open>i\<close> when the expression has no flags, and with the flags of the
  expression, unchanged, when it has some: these are the flags it gives to the
  constructor, and the flags of the pattern it returns when the constructor accepts
  them with the source; when the constructor refuses, its \<open>SyntaxError\<close> leaves
  \<open>respondPattern\<close>. (The flags of a regular expression are letters; none is a
  slash.)
\<close>

theorem respondPattern_modifiers:
  assumes "CHR ''/'' \<notin> set fl"
  shows "respondPattern accepts (RegExp src fl) rb =
            (if accepts (wrapped (name rb) src) (if fl = [] then ''i'' else fl)
             then Inr (RegExp (wrapped (name rb) src) (if fl = [] then ''i'' else fl),
                       if src \<noteq> [] \<and> hd src = CHR ''^''
                       then log Warn [regexWarning (RegExp src fl)] (log Warn [anchorWarning] rb)
                       else rb)
             else Inl (SyntaxError (''Invalid regular expression: /'' @ wrapped (name rb) src @ ''/''),
                       if src \<noteq> [] \<and> hd src = CHR ''^''
                       then log Warn [regexWarning (RegExp src fl)] (log Warn [anchorWarning] rb)
                       else rb))
         \<and> (\<forall>p rb'. respondPattern accepts (RegExp src fl) rb = Inr (p, rb')
              \<longrightarrow> flags p = (if fl = [] then ''i'' else fl))"
  using assms by (auto simp add: respondPattern_RegExp newRegExp_def)

theorem respondPattern_modifiers_witness:
  "fst (projr (respondPattern engineAccepts (RegExp ''ping'' ''g'') bot))
     = RegExp (CHR ''^'' # backslash # ''s*[@]*botname[:,]?'' @ backslash # ''s*(?:ping)'') ''g''
   \<and> fst (projr (respondPattern engineAccepts (RegExp ''ping'' []) bot))
     = RegExp (CHR ''^'' # backslash # ''s*[@]*botname[:,]?'' @ backslash # ''s*(?:ping)'') ''i''
   \<and> respondPattern engineAccepts (RegExp ''ping'' ''u'') dashBot
     = Inl (SyntaxError (''Invalid regular expression: /'' @ CHR ''^'' # backslash # ''s*[@]*my''
                           @ backslash # ''-bot[:,]?'' @ backslash # ''s*(?:ping)/''), dashBot)"
proof -
  have hg: "CHR ''/'' \<notin> set ''g''" and hn: "CHR ''/'' \<notin> set ([] :: string)"
    and hu: "CHR ''/'' \<notin> set ''u''" by simp_all
  have w1: "wrapped (name bot) ''ping''
      = CHR ''^'' # backslash # ''s*[@]*botname[:,]?'' @ backslash # ''s*(?:ping)''"
    by (simp add: wrapped_def toLowerCase_def lowerChar_def isSpecial_def isSpace_def bot_def)
  have w2: "wrapped (name dashBot) ''ping''
      = CHR ''^'' # backslash # ''s*[@]*my'' @ backslash # ''-bot[:,]?'' @ backslash # ''s*(?:ping)''"
    by (simp add: wrapped_def toLowerCase_def lowerChar_def isSpecial_def isSpace_def bot_def dashBot_def)
  have a1: "engineAccepts (wrapped (name bot) ''ping'') ''g''"
    and a2: "engineAccepts (wrapped (name bot) ''ping'') ''i''"
    by (simp_all add: engineAccepts_def)
  have a3: "\<not> engineAccepts (wrapped (name dashBot) ''ping'') ''u''"
    unfolding w2 by (simp add: engineAccepts_def)
  have u: "respondPattern engineAccepts (RegExp ''ping'' ''u'') dashBot
     = Inl (SyntaxError (''Invalid regular expression: /'' @ wrapped (name dashBot) ''ping'' @ ''/''), dashBot)"
    using a3 by (simp add: respondPattern_RegExp[OF hu] newRegExp_def)
  from respondPattern_modifiers[OF hg, of engineAccepts "''ping''" bot] a1
  have g: "fst (projr (respondPattern engineAccepts (RegExp ''ping'' ''g'') bot))
     = RegExp (wrapped (name bot) ''ping'') ''g''" by auto
  from respondPattern_modifiers[OF hn, of engineAccepts "''ping''" bot] a2
  have n: "fst (projr (respondPattern engineAccepts (RegExp ''ping'' []) bot))
     = RegExp (wrapped (name bot) ''ping'') ''i''" by auto
  from g n u show ?thesis unfolding w1 w2 by simp
qed


section \<open>Sending through an adapter that is not registered\<close>

text \<open>
  C2. For every envelope whose \<open>adapterName\<close> is not a key of the registry and every
  \<open>messages\<close>, \<open>send\<close> throws, and the state it leaves is the state before with one
  more line in the log: the backends are untouched, whatever adapters the registry
  holds, so no \<open>send\<close> of an adapter has run.
\<close>

theorem send_unknown_adapter:
  assumes "adapterName envelope \<notin> dom (adapters rb)"
  shows "\<exists>e entry. send envelope messages rb = Inl (e, rb\<lparr>logger := logger rb @ [entry]\<rparr>)"
proof -
  from assms have n: "adapters rb (adapterName envelope) = None" by (simp add: domIff)
  let ?entry = "(Debug, [''[Robot] Sending in '' @ roomString (room envelope) @ '' via ''
                   @ adapterName envelope @ '': '' @ argString messages])"
  let ?e = "if adapterName envelope \<in> set objectPrototypeKeys
            then TypeError ''adapter.send is not a function''
            else Error (''[Robot] Invalid adapter name: '' @ adapterName envelope)"
  have "send envelope messages rb = Inl (?e, rb\<lparr>logger := logger rb @ [?entry]\<rparr>)"
    using n by (simp add: send_def getAdapter_def log_def Let_def)
  then show ?thesis by blast
qed

theorem send_unknown_adapter_witness:
  "adapterName slack \<notin> dom (adapters bot)
   \<and> (\<exists>e entry. send slack (S ''hi'') bot = Inl (e, bot\<lparr>logger := logger bot @ [entry]\<rparr>))
   \<and> send slack (S ''hi'') bot
       = Inl (Error ''[Robot] Invalid adapter name: slack'',
              bot\<lparr>logger := [(Debug, [''[Robot] Sending in [object Object] via slack: hi''])]\<rparr>)"
proof -
  have h: "adapterName slack \<notin> dom (adapters bot)"
    by (simp add: slack_def bot_def)
  have "send slack (S ''hi'') bot
       = Inl (Error ''[Robot] Invalid adapter name: slack'',
              bot\<lparr>logger := [(Debug, [''[Robot] Sending in [object Object] via slack: hi''])]\<rparr>)"
    by (simp add: send_def getAdapter_def objectPrototypeKeys_def log_def Let_def slack_def
        bot_def roomString_def asArray_def)
  with h send_unknown_adapter[OF h, of "S ''hi''"] show ?thesis by simp
qed

text \<open>
  C3. For every envelope whose \<open>adapterName\<close> is not a key of the registry, \<open>reply\<close>
  throws to its caller (the \<open>TypeError\<close> of reading \<open>reply\<close> from what the lookup
  gave), and the state it leaves is the state before with one more line in the log:
  the messages are not dropped in silence, and no adapter has run.
\<close>

theorem reply_unknown_adapter:
  assumes "adapterName envelope \<notin> dom (adapters rb)"
  shows "\<exists>m entry. reply envelope messages rb = Inl (TypeError m, rb\<lparr>logger := logger rb @ [entry]\<rparr>)"
proof -
  from assms have n: "adapters rb (adapterName envelope) = None" by (simp add: domIff)
  let ?entry = "(Debug, [''[Robot] Attempting to reply to '' @ user envelope @ '' in #''
                   @ room_name (room envelope) @ '', message: '' @ argString messages])"
  let ?m = "if adapterName envelope \<in> set objectPrototypeKeys
            then ''reply is not a function''
            else ''Cannot read property reply of undefined''"
  have "reply envelope messages rb = Inl (TypeError ?m, rb\<lparr>logger := logger rb @ [?entry]\<rparr>)"
    using n by (simp add: reply_def getAdapter_def log_def Let_def)
  then show ?thesis by blast
qed

theorem reply_unknown_adapter_witness:
  "adapterName slack \<notin> dom (adapters bot)
   \<and> (\<exists>m entry. reply slack (S ''hi'') bot = Inl (TypeError m, bot\<lparr>logger := logger bot @ [entry]\<rparr>))
   \<and> reply slack (S ''hi'') bot
       = Inl (TypeError ''Cannot read property reply of undefined'',
              bot\<lparr>logger := [(Debug, [''[Robot] Attempting to reply to ann in #general, message: hi''])]\<rparr>)"
proof -
  have h: "adapterName slack \<notin> dom (adapters bot)"
    by (simp add: slack_def bot_def)
  have "reply slack (S ''hi'') bot
       = Inl (TypeError ''Cannot read property reply of undefined'',
              bot\<lparr>logger := [(Debug, [''[Robot] Attempting to reply to ann in #general, message: hi''])]\<rparr>)"
    by (simp add: reply_def getAdapter_def objectPrototypeKeys_def log_def Let_def slack_def
        bot_def asArray_def)
  with h reply_unknown_adapter[OF h, of "S ''hi''"] show ?thesis by simp
qed


section \<open>The dispatch loop\<close>

lemma callEach_append:
  "callEach call msg adapter callback (xs @ ys) rb =
     (case callEach call msg adapter callback xs rb of
        Inl x \<Rightarrow> Inl x
      | Inr rb' \<Rightarrow> callEach call msg adapter callback ys rb')"
  by (induction xs arbitrary: rb) (auto split: sum.splits)

text \<open>
  When every call of a listener of the list returns and leaves the list as it is, the
  loop from index \<open>i\<close> returns, and its outcome is the calls of the listeners from \<open>i\<close>
  on, applied one after the other.
\<close>

lemma dispatch_total:
  assumes H: "\<forall>l \<in> set ls. \<forall>s. \<exists>s'. call l msg adapter callback s = Inr s'
                \<and> pluginListeners s' = pluginListeners s"
  shows "pluginListeners rb = ls \<Longrightarrow>
         dispatch call msg adapter callback i tr rb
           = Some (tr @ map (\<lambda>l. (l, msg, adapter, callback)) (drop i ls),
                   callEach call msg adapter callback (drop i ls) rb)
         \<and> (\<exists>rb'. callEach call msg adapter callback (drop i ls) rb = Inr rb'
                \<and> pluginListeners rb' = ls)"
proof (induction "length ls - i" arbitrary: i tr rb)
  case 0
  then have "\<not> i < length (pluginListeners rb)" by simp
  with 0 show ?case
    by (subst dispatch.simps) simp
next
  case (Suc n)
  then have lt: "i < length ls" by simp
  let ?l = "ls ! i"
  let ?tr = "tr @ [(?l, msg, adapter, callback)]"
  from lt have "?l \<in> set ls" by simp
  with H obtain s' where s': "call ?l msg adapter callback rb = Inr s'"
    "pluginListeners s' = pluginListeners rb" by blast
  from Suc.hyps(2) lt have n: "n = length ls - Suc i" by simp
  from s' Suc.prems have pl: "pluginListeners s' = ls" by simp
  note IH = Suc.hyps(1)[OF n pl, of ?tr]
  have d: "drop i ls = ?l # drop (Suc i) ls"
    using lt by (simp add: Cons_nth_drop_Suc)
  have "dispatch call msg adapter callback i tr rb
          = dispatch call msg adapter callback (Suc i) ?tr s'"
    apply (subst dispatch.simps)
    using lt Suc.prems s' by simp
  with IH d s' show ?case by simp
qed

text \<open>
  Whenever the loop returns, its outcome is the calls of the listeners it has
  invoked, applied one after the other to the robot it started from.
\<close>

lemma dispatch_composition_aux:
  assumes D: "dispatch call msg adapter callback i tr rb = Some y"
  shows "\<forall>rb0. callEach call msg adapter callback (map fst tr) rb0 = Inr rb
           \<longrightarrow> snd y = callEach call msg adapter callback (map fst (fst y)) rb0"
proof (induct rule: dispatch.raw_induct[OF _ D])
  case (1 rec call msg adapter callback i tr rb y)
  show ?case
  proof (intro allI impI)
    fix rb0
    assume C: "callEach call msg adapter callback (map fst tr) rb0 = Inr rb"
    show "snd y = callEach call msg adapter callback (map fst (fst y)) rb0"
    proof (cases "i < length (pluginListeners rb)")
      case False
      with 1(2) have "y = (tr, Inr rb)" by simp
      with C show ?thesis by simp
    next
      case True
      let ?l = "pluginListeners rb ! i"
      let ?tr = "tr @ [(?l, msg, adapter, callback)]"
      show ?thesis
      proof (cases "call ?l msg adapter callback rb")
        case (Inl q)
        obtain e s' where q: "q = (e, s')" by (cases q)
        with True Inl 1(2) have y: "y = (?tr, Inl (e, s'))" by (simp add: Let_def)
        have "callEach call msg adapter callback (map fst ?tr) rb0 = Inl (e, s')"
          using C Inl q by (simp add: callEach_append)
        with y show ?thesis by simp
      next
        case (Inr s')
        with True 1(2) have r: "rec call msg adapter callback (Suc i) ?tr s' = Some y"
          by (simp add: Let_def)
        have "callEach call msg adapter callback (map fst ?tr) rb0 = Inr s'"
          using C Inr by (simp add: callEach_append)
        with 1(1)[OF r] show ?thesis by blast
      qed
    qed
  qed
qed

lemma dispatch_composition:
  assumes "dispatch call msg adapter callback 0 [] rb = Some (tr, r)"
  shows "r = callEach call msg adapter callback (map fst tr) rb"
  using dispatch_composition_aux[OF assms] by simp

text \<open>The loop only adds invocations at the end of the list it was given.\<close>

lemma dispatch_extends_aux:
  assumes D: "dispatch call msg adapter callback i tr rb = Some y"
  shows "\<exists>xs. fst y = tr @ xs"
proof (induct rule: dispatch.raw_induct[OF _ D])
  case (1 rec call msg adapter callback i tr rb y)
  show ?case
  proof (cases "i < length (pluginListeners rb)")
    case False
    with 1(2) show ?thesis by auto
  next
    case True
    let ?l = "pluginListeners rb ! i"
    let ?tr = "tr @ [(?l, msg, adapter, callback)]"
    show ?thesis
    proof (cases "call ?l msg adapter callback rb")
      case (Inl q)
      with True 1(2) have "fst y = ?tr" by (cases q) (auto simp: Let_def)
      then show ?thesis by simp
    next
      case (Inr s')
      with True 1(2) have "rec call msg adapter callback (Suc i) ?tr s' = Some y"
        by (simp add: Let_def)
      from 1(1)[OF this] show ?thesis by auto
    qed
  qed
qed

text \<open>With a listener in the list, the first one is the first invoked.\<close>

lemma dispatch_first:
  assumes D: "dispatch call msg adapter callback 0 [] rb = Some (tr, r)"
    and N: "pluginListeners rb = l # ls"
  shows "\<exists>xs. tr = (l, msg, adapter, callback) # xs"
proof (cases "call l msg adapter callback rb")
  case (Inl q)
  with D N have "tr = [(l, msg, adapter, callback)]"
    by (subst (asm) dispatch.simps) (cases q, simp add: Let_def)
  then show ?thesis by simp
next
  case (Inr s')
  with D N have "dispatch call msg adapter callback (Suc 0) [(l, msg, adapter, callback)] s' = Some (tr, r)"
    by (subst (asm) dispatch.simps) (simp add: Let_def)
  from dispatch_extends_aux[OF this] show ?thesis by simp
qed

text \<open>
  When the calls only add listeners at the end of the list and the loop returns
  without an exception, the listeners called are those of the list as it is at the end.
\<close>

lemma dispatch_appending_aux:
  assumes D: "dispatch call msg adapter callback i tr rb = Some y"
  shows "(\<forall>l s s'. call l msg adapter callback s = Inr s' \<longrightarrow>
                (\<exists>ys. pluginListeners s' = pluginListeners s @ ys)) \<longrightarrow>
        i \<le> length (pluginListeners rb) \<longrightarrow> map fst tr = take i (pluginListeners rb) \<longrightarrow>
        (\<forall>tr' rb'. y = (tr', Inr rb') \<longrightarrow> map fst tr' = pluginListeners rb')"
proof (induct rule: dispatch.raw_induct[OF _ D])
  case (1 rec call msg adapter callback i tr rb y)
  show ?case
  proof (intro impI allI)
    fix tr' rb'
    assume A: "\<forall>l s s'. call l msg adapter callback s = Inr s' \<longrightarrow>
              (\<exists>ys. pluginListeners s' = pluginListeners s @ ys)"
      and le: "i \<le> length (pluginListeners rb)"
      and tk: "map fst tr = take i (pluginListeners rb)"
      and y: "y = (tr', Inr rb')"
    show "map fst tr' = pluginListeners rb'"
    proof (cases "i < length (pluginListeners rb)")
      case False
      with 1(2) y le tk show ?thesis by simp
    next
      case True
      let ?l = "pluginListeners rb ! i"
      let ?tr = "tr @ [(?l, msg, adapter, callback)]"
      from True 1(2) y obtain s' where
        c: "call ?l msg adapter callback rb = Inr s'"
        and r: "rec call msg adapter callback (Suc i) ?tr s' = Some y"
        by (auto simp: Let_def split: sum.splits prod.splits)
      from A c obtain ys where ys: "pluginListeners s' = pluginListeners rb @ ys" by blast
      have le': "Suc i \<le> length (pluginListeners s')" using True ys by simp
      have tk': "map fst ?tr = take (Suc i) (pluginListeners s')"
        using True tk ys by (simp add: take_Suc_conv_app_nth)
      from 1(1)[OF r] A le' tk' y show ?thesis by blast
    qed
  qed
qed

lemma dispatch_appending:
  assumes A: "\<forall>l s s'. call l msg adapter callback s = Inr s' \<longrightarrow>
                (\<exists>ys. pluginListeners s' = pluginListeners s @ ys)"
    and D: "dispatch call msg adapter callback 0 [] rb = Some (tr', Inr rb')"
  shows "map fst tr' = pluginListeners rb'"
  using dispatch_appending_aux[OF D] A by simp

text \<open>Every invocation of the loop carries the adapter and the callback of
  \<open>receive\<close>.\<close>

lemma dispatch_args_aux:
  assumes D: "dispatch call msg adapter callback i tr rb = Some y"
  shows "(\<forall>v \<in> set tr. snd (snd v) = (adapter, callback)) \<longrightarrow>
        (\<forall>v \<in> set (fst y). snd (snd v) = (adapter, callback))"
proof (induct rule: dispatch.raw_induct[OF _ D])
  case (1 rec call msg adapter callback i tr rb y)
  show ?case
  proof (cases "i < length (pluginListeners rb)")
    case False
    with 1(2) have "fst y = tr" by auto
    then show ?thesis by simp
  next
    case True
    let ?l = "pluginListeners rb ! i"
    let ?tr = "tr @ [(?l, msg, adapter, callback)]"
    show ?thesis
    proof (cases "call ?l msg adapter callback rb")
      case (Inl p)
      with True 1(2) have "fst y = ?tr"
        by (cases p) (auto simp: Let_def)
      then show ?thesis by simp
    next
      case (Inr s')
      with True 1(2) have "rec call msg adapter callback (Suc i) ?tr s' = Some y"
        by (simp add: Let_def)
      from 1(1)[OF this] show ?thesis by simp
    qed
  qed
qed

text \<open>What the examples log and send.\<close>

lemma send_irc:
  "adapters rb ''irc'' = Some recorder \<Longrightarrow>
   send irc (S t) rb = Inr (rb\<lparr>logger := logger rb @ [sendLine t],
                               world := world rb @ [(''send'', irc, [Arr [S t]])]\<rparr>)"
  by (simp add: send_def getAdapter_def invoke_def recorder_def irc_def log_def asArray_def
      roomString_def sendLine_def Let_def)

section \<open>Dispatch of a message to the listeners\<close>

text \<open>
  C1 (as amended). For every non-null message: when every call of a registered
  listener returns and leaves the list of listeners as it is, \<open>receive\<close> returns, and
  its outcome is the calls of the registered listeners applied one after the other,
  each exactly once, in the order of registration, with the message, the adapter and
  the callback it was given. Whenever \<open>receive\<close> returns, its outcome is the calls of
  the listeners it has invoked, applied one after the other in the order of their
  invocation. When the calls only add listeners at the end of the list, a \<open>receive\<close>
  that returns without an exception has invoked the listeners of the list as it is at
  its end: a listener registered while the message is dispatched is called with that
  message too.
\<close>

theorem receive_calls_each_listener:
  "((\<forall>l \<in> set (pluginListeners rb). \<forall>s. \<exists>s'. call l msg adapter callback s = Inr s'
        \<and> pluginListeners s' = pluginListeners s)
     \<longrightarrow> receive call (Some msg) adapter callback rb
           = Some (map (\<lambda>l. (l, msg, adapter, callback)) (pluginListeners rb),
                   callEach call msg adapter callback (pluginListeners rb) rb)
         \<and> (\<exists>rb'. callEach call msg adapter callback (pluginListeners rb) rb = Inr rb'
                \<and> pluginListeners rb' = pluginListeners rb))
   \<and> (\<forall>tr r. receive call (Some msg) adapter callback rb = Some (tr, r)
         \<longrightarrow> r = callEach call msg adapter callback (map fst tr) rb)
   \<and> ((\<forall>l s s'. call l msg adapter callback s = Inr s'
            \<longrightarrow> (\<exists>ys. pluginListeners s' = pluginListeners s @ ys))
     \<longrightarrow> (\<forall>tr rb'. receive call (Some msg) adapter callback rb = Some (tr, Inr rb')
            \<longrightarrow> map fst tr = pluginListeners rb'))"
proof (intro conjI impI allI)
  assume H: "\<forall>l \<in> set (pluginListeners rb). \<forall>s. \<exists>s'. call l msg adapter callback s = Inr s'
        \<and> pluginListeners s' = pluginListeners s"
  have T: "dispatch call msg adapter callback 0 [] rb
          = Some ([] @ map (\<lambda>l. (l, msg, adapter, callback)) (drop 0 (pluginListeners rb)),
                  callEach call msg adapter callback (drop 0 (pluginListeners rb)) rb)
        \<and> (\<exists>rb'. callEach call msg adapter callback (drop 0 (pluginListeners rb)) rb = Inr rb'
               \<and> pluginListeners rb' = pluginListeners rb)"
    by (rule dispatch_total[where call = call and msg = msg and adapter = adapter
          and callback = callback, OF H refl])
  from T show "receive call (Some msg) adapter callback rb
           = Some (map (\<lambda>l. (l, msg, adapter, callback)) (pluginListeners rb),
                   callEach call msg adapter callback (pluginListeners rb) rb)"
    by (simp add: receive_def)
  from T show "\<exists>rb'. callEach call msg adapter callback (pluginListeners rb) rb = Inr rb'
                \<and> pluginListeners rb' = pluginListeners rb"
    by simp
next
  fix tr r
  assume "receive call (Some msg) adapter callback rb = Some (tr, r)"
  then have "dispatch call msg adapter callback 0 [] rb = Some (tr, r)"
    by (simp add: receive_def)
  then show "r = callEach call msg adapter callback (map fst tr) rb"
    by (rule dispatch_composition)
next
  fix tr rb'
  assume A: "\<forall>l s s'. call l msg adapter callback s = Inr s'
            \<longrightarrow> (\<exists>ys. pluginListeners s' = pluginListeners s @ ys)"
    and R: "receive call (Some msg) adapter callback rb = Some (tr, Inr rb')"
  from R have "dispatch call msg adapter callback 0 [] rb = Some (tr, Inr rb')"
    by (simp add: receive_def)
  from dispatch_appending[OF A this] show "map fst tr = pluginListeners rb'" .
qed

lemma send_keeps_listeners:
  "send envelope messages s = Inl (e, s') \<or> send envelope messages s = Inr s'
     \<Longrightarrow> pluginListeners s' = pluginListeners s"
  by (auto simp: send_def invoke_def log_def Let_def
      split: member.splits sum.splits prod.splits if_splits)

lemma plainCall_appends:
  "plainCall l msg adapter callback s = Inr s' \<Longrightarrow> \<exists>ys. pluginListeners s' = pluginListeners s @ ys"
proof -
  assume c: "plainCall l msg adapter callback s = Inr s'"
  obtain p opts cb where l: "l = TextListener p opts cb" by (cases l)
  show ?thesis
  proof (cases cb)
    case Quiet
    with c l show ?thesis by (simp add: plainCall_def)
  next
    case Say
    with c l have "send irc (S (messageText msg)) s = Inr s'" by (simp add: plainCall_def)
    then have "pluginListeners s' = pluginListeners s" using send_keeps_listeners by blast
    then show ?thesis by simp
  next
    case Register
    with c l show ?thesis
      by (auto simp: plainCall_def hear_def storeListener_def log_def Let_def)
  next
    case Fail
    with c l show ?thesis by (simp add: plainCall_def)
  qed
qed

theorem receive_calls_each_listener_witness:
  "receive plainCall (Some hello) recorder (None :: unit option) quietBot
     = Some ([(quiet ''a'', hello, recorder, None), (quiet ''b'', hello, recorder, None)],
             callEach plainCall hello recorder (None :: unit option) [quiet ''a'', quiet ''b''] quietBot)
   \<and> receive plainCall (Some hello) recorder (None :: unit option) sayBot
     = Some ([(saying ''a'', hello, recorder, None), (quiet ''b'', hello, recorder, None),
              (saying ''c'', hello, recorder, None)],
             Inr (sayBot\<lparr>logger := [sendLine ''hello'', sendLine ''hello''],
                          world := [(''send'', irc, [Arr [S ''hello'']]),
                                    (''send'', irc, [Arr [S ''hello'']])]\<rparr>))
   \<and> Inr (sayBot\<lparr>logger := [sendLine ''hello'', sendLine ''hello''],
                  world := [(''send'', irc, [Arr [S ''hello'']]),
                            (''send'', irc, [Arr [S ''hello'']])]\<rparr>)
     = callEach plainCall hello recorder (None :: unit option)
         [saying ''a'', quiet ''b'', saying ''c''] sayBot
   \<and> receive plainCall (Some hello) recorder (None :: unit option) registeringBot
     = Some ([(registering, hello, recorder, None), (saying ''late'', hello, recorder, None)],
             Inr (registeringBot\<lparr>
                    logger := [(Debug, [''[Robot] creating hear listener for regex'', ''late'']),
                               sendLine ''hello''],
                    pluginListeners := [registering, saying ''late''],
                    world := [(''send'', irc, [Arr [S ''hello'']])]\<rparr>))
   \<and> map fst [(registering, hello, recorder, None :: unit option), (saying ''late'', hello, recorder, None)]
     = pluginListeners (registeringBot\<lparr>
                    logger := [(Debug, [''[Robot] creating hear listener for regex'', ''late'']),
                               sendLine ''hello''],
                    pluginListeners := [registering, saying ''late''],
                    world := [(''send'', irc, [Arr [S ''hello'']])]\<rparr>)"
proof -
  note t1 = receive_calls_each_listener[where call = plainCall and msg = hello
      and adapter = recorder and callback = "None :: unit option" and rb = quietBot]
  note t2 = receive_calls_each_listener[where call = plainCall and msg = hello
      and adapter = recorder and callback = "None :: unit option" and rb = sayBot]
  note t3 = receive_calls_each_listener[where call = plainCall and msg = hello
      and adapter = recorder and callback = "None :: unit option" and rb = registeringBot]
  have pq: "pluginListeners quietBot = [quiet ''a'', quiet ''b'']"
    by (simp add: quietBot_def)
  have h1: "\<forall>l \<in> set (pluginListeners quietBot). \<forall>s. \<exists>s'.
              plainCall l hello recorder (None :: unit option) s = Inr s'
              \<and> pluginListeners s' = pluginListeners s"
    by (simp add: quietBot_def quiet_def plainCall_def)
  from t1[THEN conjunct1] h1
  have "receive plainCall (Some hello) recorder (None :: unit option) quietBot
     = Some (map (\<lambda>l. (l, hello, recorder, None)) (pluginListeners quietBot),
             callEach plainCall hello recorder (None :: unit option) (pluginListeners quietBot) quietBot)
     \<and> (\<exists>rb'. callEach plainCall hello recorder (None :: unit option) (pluginListeners quietBot) quietBot = Inr rb'
            \<and> pluginListeners rb' = pluginListeners quietBot)"
    by (rule mp)
  then have a: "receive plainCall (Some hello) recorder (None :: unit option) quietBot
     = Some (map (\<lambda>l. (l, hello, recorder, None)) (pluginListeners quietBot),
             callEach plainCall hello recorder (None :: unit option) (pluginListeners quietBot) quietBot)"
    by (rule conjunct1)
  have a': "receive plainCall (Some hello) recorder (None :: unit option) quietBot
     = Some ([(quiet ''a'', hello, recorder, None), (quiet ''b'', hello, recorder, None)],
             callEach plainCall hello recorder (None :: unit option) [quiet ''a'', quiet ''b''] quietBot)"
    using a by (simp only: pq list.map)
  have b: "receive plainCall (Some hello) recorder (None :: unit option) sayBot
     = Some ([(saying ''a'', hello, recorder, None), (quiet ''b'', hello, recorder, None),
              (saying ''c'', hello, recorder, None)],
             Inr (sayBot\<lparr>logger := [sendLine ''hello'', sendLine ''hello''],
                          world := [(''send'', irc, [Arr [S ''hello'']]),
                                    (''send'', irc, [Arr [S ''hello'']])]\<rparr>))"
    by (simp add: receive_def dispatch.simps sayBot_def saying_def quiet_def plainCall_def
        send_irc bot_def hello_def Let_def)
  from t2 b have b': "Inr (sayBot\<lparr>logger := [sendLine ''hello'', sendLine ''hello''],
                  world := [(''send'', irc, [Arr [S ''hello'']]),
                            (''send'', irc, [Arr [S ''hello'']])]\<rparr>)
     = callEach plainCall hello recorder (None :: unit option)
         (map fst [(saying ''a'', hello, recorder, None :: unit option), (quiet ''b'', hello, recorder, None),
              (saying ''c'', hello, recorder, None)]) sayBot"
    by blast
  have c: "receive plainCall (Some hello) recorder (None :: unit option) registeringBot
     = Some ([(registering, hello, recorder, None), (saying ''late'', hello, recorder, None)],
             Inr (registeringBot\<lparr>
                    logger := [(Debug, [''[Robot] creating hear listener for regex'', ''late'']),
                               sendLine ''hello''],
                    pluginListeners := [registering, saying ''late''],
                    world := [(''send'', irc, [Arr [S ''hello'']])]\<rparr>))"
    by (simp add: receive_def dispatch.simps registeringBot_def registering_def saying_def
        plainCall_def hear_def storeListener_def send_irc log_def bot_def hello_def Let_def)
  have h3: "\<forall>l s s'. plainCall l hello recorder (None :: unit option)
                (s :: ((unit, action) listener, backend) robot) = Inr s'
            \<longrightarrow> (\<exists>ys. pluginListeners s' = pluginListeners s @ ys)"
    by (blast dest: plainCall_appends)
  from t3 h3 c have c': "map fst [(registering, hello, recorder, None :: unit option), (saying ''late'', hello, recorder, None)]
     = pluginListeners (registeringBot\<lparr>
                    logger := [(Debug, [''[Robot] creating hear listener for regex'', ''late'']),
                               sendLine ''hello''],
                    pluginListeners := [registering, saying ''late''],
                    world := [(''send'', irc, [Arr [S ''hello'']])]\<rparr>)"
    by blast
  from a' b b' c c' show ?thesis by simp
qed

text \<open>
  C1 as stated fails: the robot holds one listener, whose call registers a second
  one with \<open>hear\<close>; \<open>receive\<close> calls the second listener with the message that was
  being dispatched when it was registered: the backend has received the text of that
  message, which only the callback of the second listener sends.
\<close>

theorem receive_calls_late_listener:
  "pluginListeners registeringBot = [registering]
   \<and> receive plainCall (Some hello) recorder (None :: unit option) registeringBot
       = Some ([(registering, hello, recorder, None), (saying ''late'', hello, recorder, None)],
               Inr (registeringBot\<lparr>
                      logger := [(Debug, [''[Robot] creating hear listener for regex'', ''late'']),
                                 sendLine ''hello''],
                      pluginListeners := [registering, saying ''late''],
                      world := [(''send'', irc, [Arr [S ''hello'']])]\<rparr>))"
  by (simp add: receive_def dispatch.simps registeringBot_def registering_def saying_def
      plainCall_def hear_def storeListener_def send_irc log_def bot_def hello_def Let_def)

text \<open>
  C7 (as amended). For a message that is \<open>null\<close> or \<open>undefined\<close>, \<open>receive\<close> logs
  \<open>[Robot] blank message error\<close> and does nothing else: no listener is called and
  the rest of the state is as before. Every other message is dispatched, whatever its
  variant: when every call of a registered listener returns and leaves the list as it
  is, \<open>receive\<close> returns and its outcome is the calls of the registered listeners
  applied to the message one after the other; and whenever \<open>receive\<close> returns on a
  robot with a listener, the call of the first registered listener has been applied
  to the message, with the calls of the listeners invoked after it.
\<close>

theorem receive_blank_message:
  "receive call None adapter callback rb
     = Some ([], Inr (rb\<lparr>logger := logger rb @ [(Info, [''[Robot] blank message error''])]\<rparr>))
   \<and> ((\<forall>l \<in> set (pluginListeners rb). \<forall>s. \<exists>s'. call l msg adapter callback s = Inr s'
          \<and> pluginListeners s' = pluginListeners s)
     \<longrightarrow> receive call (Some msg) adapter callback rb
           = Some (map (\<lambda>l. (l, msg, adapter, callback)) (pluginListeners rb),
                   callEach call msg adapter callback (pluginListeners rb) rb))
   \<and> (\<forall>tr r l ls. pluginListeners rb = l # ls
          \<and> receive call (Some msg) adapter callback rb = Some (tr, r)
        \<longrightarrow> (\<exists>xs. tr = (l, msg, adapter, callback) # xs
               \<and> r = callEach call msg adapter callback (l # map fst xs) rb))"
proof (intro conjI impI allI)
  show "receive call None adapter callback rb
     = Some ([], Inr (rb\<lparr>logger := logger rb @ [(Info, [''[Robot] blank message error''])]\<rparr>))"
    by (simp add: receive_def log_def)
next
  assume H: "\<forall>l \<in> set (pluginListeners rb). \<forall>s. \<exists>s'. call l msg adapter callback s = Inr s'
          \<and> pluginListeners s' = pluginListeners s"
  have "dispatch call msg adapter callback 0 [] rb
          = Some ([] @ map (\<lambda>l. (l, msg, adapter, callback)) (drop 0 (pluginListeners rb)),
                  callEach call msg adapter callback (drop 0 (pluginListeners rb)) rb)
        \<and> (\<exists>rb'. callEach call msg adapter callback (drop 0 (pluginListeners rb)) rb = Inr rb'
               \<and> pluginListeners rb' = pluginListeners rb)"
    by (rule dispatch_total[where call = call and msg = msg and adapter = adapter
          and callback = callback, OF H refl])
  then show "receive call (Some msg) adapter callback rb
           = Some (map (\<lambda>l. (l, msg, adapter, callback)) (pluginListeners rb),
                   callEach call msg adapter callback (pluginListeners rb) rb)"
    by (simp add: receive_def)
next
  fix tr r l ls
  assume A: "pluginListeners rb = l # ls
          \<and> receive call (Some msg) adapter callback rb = Some (tr, r)"
  then have D: "dispatch call msg adapter callback 0 [] rb = Some (tr, r)"
    by (simp add: receive_def)
  from dispatch_first[OF D] A obtain xs where xs: "tr = (l, msg, adapter, callback) # xs"
    by blast
  from dispatch_composition[OF D] xs
  show "\<exists>xs. tr = (l, msg, adapter, callback) # xs
               \<and> r = callEach call msg adapter callback (l # map fst xs) rb"
    by simp
qed

theorem receive_blank_message_witness:
  "receive plainCall None recorder (None :: unit option) sayBot
     = Some ([], Inr (sayBot\<lparr>logger := [(Info, [''[Robot] blank message error''])]\<rparr>))
   \<and> receive plainCall (Some (OtherMessage ''enter'')) recorder (None :: unit option) quietBot
     = Some ([(quiet ''a'', OtherMessage ''enter'', recorder, None),
              (quiet ''b'', OtherMessage ''enter'', recorder, None)],
             callEach plainCall (OtherMessage ''enter'') recorder (None :: unit option) [quiet ''a'', quiet ''b''] quietBot)
   \<and> (\<exists>xs. [(saying ''a'', OtherMessage ''enter'', recorder, None :: unit option),
             (quiet ''b'', OtherMessage ''enter'', recorder, None),
             (saying ''c'', OtherMessage ''enter'', recorder, None)]
            = (saying ''a'', OtherMessage ''enter'', recorder, None) # xs
          \<and> Inr (sayBot\<lparr>logger := [sendLine ''enter'', sendLine ''enter''],
                          world := [(''send'', irc, [Arr [S ''enter'']]),
                                    (''send'', irc, [Arr [S ''enter'']])]\<rparr>)
            = callEach plainCall (OtherMessage ''enter'') recorder (None :: unit option)
                (saying ''a'' # map fst xs) sayBot)"
proof -
  note t1 = receive_blank_message[where call = plainCall and adapter = recorder
      and callback = "None :: unit option" and rb = sayBot and msg = "OtherMessage ''enter''"]
  note t2 = receive_blank_message[where call = plainCall and adapter = recorder
      and callback = "None :: unit option" and rb = quietBot and msg = "OtherMessage ''enter''"]
  have l: "logger sayBot = []" by (simp add: sayBot_def bot_def)
  from t1 have a: "receive plainCall None recorder (None :: unit option) sayBot
     = Some ([], Inr (sayBot\<lparr>logger := [(Info, [''[Robot] blank message error''])]\<rparr>))"
    by (simp add: l)
  have pq: "pluginListeners quietBot = [quiet ''a'', quiet ''b'']"
    by (simp add: quietBot_def)
  have h: "\<forall>l \<in> set (pluginListeners quietBot). \<forall>s. \<exists>s'.
          plainCall l (OtherMessage ''enter'') recorder (None :: unit option) s = Inr s'
          \<and> pluginListeners s' = pluginListeners s"
    by (simp add: quietBot_def quiet_def plainCall_def)
  from t2[THEN conjunct2, THEN conjunct1] h
  have "receive plainCall (Some (OtherMessage ''enter'')) recorder (None :: unit option) quietBot
     = Some (map (\<lambda>l. (l, OtherMessage ''enter'', recorder, None)) (pluginListeners quietBot),
             callEach plainCall (OtherMessage ''enter'') recorder (None :: unit option) (pluginListeners quietBot) quietBot)"
    by (rule mp)
  then have b: "receive plainCall (Some (OtherMessage ''enter'')) recorder (None :: unit option) quietBot
     = Some ([(quiet ''a'', OtherMessage ''enter'', recorder, None),
              (quiet ''b'', OtherMessage ''enter'', recorder, None)],
             callEach plainCall (OtherMessage ''enter'') recorder (None :: unit option) [quiet ''a'', quiet ''b''] quietBot)"
    by (simp only: pq list.map)
  have ps: "pluginListeners sayBot = saying ''a'' # [quiet ''b'', saying ''c'']"
    by (simp add: sayBot_def)
  have e: "receive plainCall (Some (OtherMessage ''enter'')) recorder (None :: unit option) sayBot
     = Some ([(saying ''a'', OtherMessage ''enter'', recorder, None),
              (quiet ''b'', OtherMessage ''enter'', recorder, None),
              (saying ''c'', OtherMessage ''enter'', recorder, None)],
             Inr (sayBot\<lparr>logger := [sendLine ''enter'', sendLine ''enter''],
                          world := [(''send'', irc, [Arr [S ''enter'']]),
                                    (''send'', irc, [Arr [S ''enter'']])]\<rparr>))"
    by (simp add: receive_def dispatch.simps sayBot_def saying_def quiet_def plainCall_def
        send_irc bot_def Let_def)
  from t1 ps e have c: "\<exists>xs. [(saying ''a'', OtherMessage ''enter'', recorder, None :: unit option),
             (quiet ''b'', OtherMessage ''enter'', recorder, None),
             (saying ''c'', OtherMessage ''enter'', recorder, None)]
            = (saying ''a'', OtherMessage ''enter'', recorder, None) # xs
          \<and> Inr (sayBot\<lparr>logger := [sendLine ''enter'', sendLine ''enter''],
                          world := [(''send'', irc, [Arr [S ''enter'']]),
                                    (''send'', irc, [Arr [S ''enter'']])]\<rparr>)
            = callEach plainCall (OtherMessage ''enter'') recorder (None :: unit option)
                (saying ''a'' # map fst xs) sayBot"
    by blast
  from a b c show ?thesis by (intro conjI)
qed

text \<open>
  C7 as stated fails: a message that is not a \<open>TextMessage\<close> is not a no-op. The
  listeners of the robot are called with it, and the backend receives what their
  callbacks send.
\<close>

theorem receive_other_message_dispatched:
  "receive plainCall (Some (OtherMessage ''enter'')) recorder (None :: unit option) sayBot
     = Some ([(saying ''a'', OtherMessage ''enter'', recorder, None),
              (quiet ''b'', OtherMessage ''enter'', recorder, None),
              (saying ''c'', OtherMessage ''enter'', recorder, None)],
             Inr (sayBot\<lparr>logger := [sendLine ''enter'', sendLine ''enter''],
                          world := [(''send'', irc, [Arr [S ''enter'']]),
                                    (''send'', irc, [Arr [S ''enter'']])]\<rparr>))"
  by (simp add: receive_def dispatch.simps sayBot_def saying_def quiet_def plainCall_def
      send_irc bot_def Let_def)

section \<open>Exceptions of callbacks\<close>

lemma Listener_call_returns:
  "\<exists>s'. Listener_call matcher run l msg adapter callback s = Inr s'"
  by (auto simp: Listener_call_def split: listener.splits option.splits sum.splits)

lemma callEach_Listener_call_returns:
  "\<exists>rb'. callEach (Listener_call matcher run) msg adapter callback ls rb = Inr rb'"
proof (induction ls arbitrary: rb)
  case Nil
  then show ?case by simp
next
  case (Cons l ls)
  obtain s' where "Listener_call matcher run l msg adapter callback rb = Inr s'"
    using Listener_call_returns[of matcher run l msg adapter callback rb] by blast
  with Cons[of s'] show ?case by simp
qed

lemma Listener_call_keeps_listeners:
  assumes "\<forall>resp s e s'. run cb resp s = Inl (e, s') \<or> run cb resp s = Inr s'
             \<longrightarrow> pluginListeners s' = pluginListeners s"
  shows "\<exists>s'. Listener_call matcher run (TextListener p opts cb) msg adapter callback s = Inr s'
           \<and> pluginListeners s' = pluginListeners s"
proof (cases "matcher p msg")
  case None
  then show ?thesis by (simp add: Listener_call_def)
next
  case (Some groups)
  show ?thesis
  proof (cases "run cb (Response groups msg adapter) s")
    case (Inl q)
    obtain e s' where q: "q = (e, s')" by (cases q)
    with Inl assms have "pluginListeners s' = pluginListeners s" by blast
    with Some Inl q show ?thesis by (simp add: Listener_call_def log_def)
  next
    case (Inr s')
    with assms have "pluginListeners s' = pluginListeners s" by blast
    with Some Inr show ?thesis by (simp add: Listener_call_def)
  qed
qed

text \<open>
  C8. With the call of a listener as the specification describes it: whenever
  \<open>receive\<close> returns, it returns without an exception, and its outcome is the calls
  of the listeners it has invoked, applied one after the other. In that sequence, an
  exception of the callback of a listener that matches is caught and logged by the
  call, and the calls of the listeners after it are applied to the robot so left.
  When the callbacks of the registered listeners leave the list of listeners as it
  is, whether they return or throw (the specification has the list written at
  start-up only), \<open>receive\<close> returns, and its outcome is the calls of all the
  registered listeners, applied one after the other in the order of registration.
\<close>

theorem receive_isolates_callback_errors:
  "(\<forall>tr r. receive (Listener_call matcher run) (Some msg) adapter callback rb = Some (tr, r)
       \<longrightarrow> (\<exists>rb'. r = Inr rb')
         \<and> r = callEach (Listener_call matcher run) msg adapter callback (map fst tr) rb)
   \<and> (matcher p msg = Some groups \<and> run cb (Response groups msg adapter) s = Inl (e, s')
       \<longrightarrow> callEach (Listener_call matcher run) msg adapter callback (TextListener p opts cb # ls) s
           = callEach (Listener_call matcher run) msg adapter callback ls
               (s'\<lparr>logger := logger s' @
                   [(Err, [''[Listener] callback failed'', toString p, errorString e])]\<rparr>))
   \<and> ((\<forall>p opts cb. TextListener p opts cb \<in> set (pluginListeners rb)
         \<longrightarrow> (\<forall>resp s e s'. run cb resp s = Inl (e, s') \<or> run cb resp s = Inr s'
                \<longrightarrow> pluginListeners s' = pluginListeners s))
      \<longrightarrow> receive (Listener_call matcher run) (Some msg) adapter callback rb
            = Some (map (\<lambda>l. (l, msg, adapter, callback)) (pluginListeners rb),
                    callEach (Listener_call matcher run) msg adapter callback (pluginListeners rb) rb)
          \<and> (\<exists>rb'. callEach (Listener_call matcher run) msg adapter callback (pluginListeners rb) rb
                     = Inr rb'))"
proof (intro conjI impI allI)
  fix tr r
  assume "receive (Listener_call matcher run) (Some msg) adapter callback rb = Some (tr, r)"
  then have D: "dispatch (Listener_call matcher run) msg adapter callback 0 [] rb = Some (tr, r)"
    by (simp add: receive_def)
  from dispatch_composition[OF D]
  show c: "r = callEach (Listener_call matcher run) msg adapter callback (map fst tr) rb" .
  from c callEach_Listener_call_returns[of matcher run msg adapter callback "map fst tr" rb]
  show "\<exists>rb'. r = Inr rb'" by simp
next
  assume "matcher p msg = Some groups \<and> run cb (Response groups msg adapter) s = Inl (e, s')"
  then show "callEach (Listener_call matcher run) msg adapter callback (TextListener p opts cb # ls) s
           = callEach (Listener_call matcher run) msg adapter callback ls
               (s'\<lparr>logger := logger s' @
                   [(Err, [''[Listener] callback failed'', toString p, errorString e])]\<rparr>)"
    by (simp add: Listener_call_def log_def)
next
  assume R: "\<forall>p opts cb. TextListener p opts cb \<in> set (pluginListeners rb)
         \<longrightarrow> (\<forall>resp s e s'. run cb resp s = Inl (e, s') \<or> run cb resp s = Inr s'
                \<longrightarrow> pluginListeners s' = pluginListeners s)"
  have H: "\<forall>l \<in> set (pluginListeners rb). \<forall>s. \<exists>s'.
             Listener_call matcher run l msg adapter callback s = Inr s'
             \<and> pluginListeners s' = pluginListeners s"
  proof (intro ballI allI)
    fix l s
    assume l: "l \<in> set (pluginListeners rb)"
    obtain p opts cb where e: "l = TextListener p opts cb" by (cases l)
    with l R have "\<forall>resp s e s'. run cb resp s = Inl (e, s') \<or> run cb resp s = Inr s'
                \<longrightarrow> pluginListeners s' = pluginListeners s" by blast
    from Listener_call_keeps_listeners[where run = run and cb = cb, OF this] e
    show "\<exists>s'. Listener_call matcher run l msg adapter callback s = Inr s'
             \<and> pluginListeners s' = pluginListeners s" by simp
  qed
  have T: "dispatch (Listener_call matcher run) msg adapter callback 0 [] rb
          = Some ([] @ map (\<lambda>l. (l, msg, adapter, callback)) (drop 0 (pluginListeners rb)),
                  callEach (Listener_call matcher run) msg adapter callback (drop 0 (pluginListeners rb)) rb)
        \<and> (\<exists>rb'. callEach (Listener_call matcher run) msg adapter callback (drop 0 (pluginListeners rb)) rb = Inr rb'
               \<and> pluginListeners rb' = pluginListeners rb)"
    by (rule dispatch_total[where call = "Listener_call matcher run" and msg = msg
          and adapter = adapter and callback = callback, OF H refl])
  from T show "receive (Listener_call matcher run) (Some msg) adapter callback rb
            = Some (map (\<lambda>l. (l, msg, adapter, callback)) (pluginListeners rb),
                    callEach (Listener_call matcher run) msg adapter callback (pluginListeners rb) rb)"
    by (simp add: receive_def)
  from T show "\<exists>rb'. callEach (Listener_call matcher run) msg adapter callback (pluginListeners rb) rb
                     = Inr rb'"
    by auto
qed

theorem receive_isolates_callback_errors_witness:
  "receive (Listener_call matchAll runAct) (Some hello) recorder (None :: unit option) failingBot
     = Some ([(failing, hello, recorder, None), (saying ''good'', hello, recorder, None)],
             Inr (failingBot\<lparr>
                    logger := [(Err, [''[Listener] callback failed'', ''bad'', ''Error: boom'']),
                               sendLine ''hello''],
                    world := [(''send'', irc, [Arr [S ''hello'']])]\<rparr>))
   \<and> Inr (failingBot\<lparr>
            logger := [(Err, [''[Listener] callback failed'', ''bad'', ''Error: boom'']),
                       sendLine ''hello''],
            world := [(''send'', irc, [Arr [S ''hello'']])]\<rparr>)
     = callEach (Listener_call matchAll runAct) hello recorder (None :: unit option)
         [failing, saying ''good''] failingBot
   \<and> callEach (Listener_call matchAll runAct) hello recorder (None :: unit option)
         [failing, saying ''good''] failingBot
     = callEach (Listener_call matchAll runAct) hello recorder (None :: unit option)
         [saying ''good'']
         (failingBot\<lparr>logger := [(Err, [''[Listener] callback failed'', ''bad'', ''Error: boom''])]\<rparr>)"
proof -
  note t = receive_isolates_callback_errors[where matcher = matchAll and run = runAct
      and msg = hello and adapter = recorder and callback = "None :: unit option"
      and rb = failingBot and p = "Str ''bad''" and groups = "[]" and cb = Fail
      and s = failingBot and e = "Error ''boom''" and s' = failingBot and opts = "()"
      and ls = "[saying ''good'']"]
  have pl: "pluginListeners failingBot = [failing, saying ''good'']"
    by (simp add: failingBot_def)
  have h: "\<forall>p opts cb. TextListener p opts cb \<in> set (pluginListeners failingBot)
         \<longrightarrow> (\<forall>resp s e s'. runAct cb (resp :: backend response) s = Inl (e, s') \<or> runAct cb resp s = Inr s'
                \<longrightarrow> pluginListeners s' = pluginListeners s)"
  proof (intro allI impI)
    fix p opts cb resp e
    fix s s' :: "((unit, action) listener, backend) robot"
    assume m: "TextListener p opts cb \<in> set (pluginListeners failingBot)"
      and r: "runAct cb (resp :: backend response) s = Inl (e, s') \<or> runAct cb resp s = Inr s'"
    from m have "cb = Fail \<or> cb = Say"
      by (auto simp: failingBot_def failing_def saying_def)
    then show "pluginListeners s' = pluginListeners s"
    proof
      assume "cb = Fail"
      with r show ?thesis by (simp add: runAct_def)
    next
      assume "cb = Say"
      with r have "send irc (S (messageText (res_message resp))) s = Inl (e, s')
          \<or> send irc (S (messageText (res_message resp))) s = Inr s'"
        by (simp add: runAct_def)
      then show ?thesis by (rule send_keeps_listeners)
    qed
  qed
  from t[THEN conjunct2, THEN conjunct2] h
  have "receive (Listener_call matchAll runAct) (Some hello) recorder (None :: unit option) failingBot
            = Some (map (\<lambda>l. (l, hello, recorder, None)) (pluginListeners failingBot),
                    callEach (Listener_call matchAll runAct) hello recorder (None :: unit option)
                      (pluginListeners failingBot) failingBot)
          \<and> (\<exists>rb'. callEach (Listener_call matchAll runAct) hello recorder (None :: unit option)
                       (pluginListeners failingBot) failingBot = Inr rb')"
    by (rule mp)
  then have a: "receive (Listener_call matchAll runAct) (Some hello) recorder (None :: unit option) failingBot
            = Some ([(failing, hello, recorder, None), (saying ''good'', hello, recorder, None)],
                    callEach (Listener_call matchAll runAct) hello recorder (None :: unit option)
                      [failing, saying ''good''] failingBot)"
    by (simp only: pl list.map)
  have m: "matchAll (Str ''bad'') hello = Some []
      \<and> runAct Fail (Response [] hello recorder) failingBot = Inl (Error ''boom'', failingBot)"
    by (simp add: matchAll_def runAct_def)
  have l0: "logger failingBot = []" by (simp add: failingBot_def bot_def)
  from t[THEN conjunct2, THEN conjunct1] m
  have "callEach (Listener_call matchAll runAct) hello recorder (None :: unit option)
           (TextListener (Str ''bad'') () Fail # [saying ''good'']) failingBot
           = callEach (Listener_call matchAll runAct) hello recorder (None :: unit option) [saying ''good'']
               (failingBot\<lparr>logger := logger failingBot @
                   [(Err, [''[Listener] callback failed'', toString (Str ''bad''), errorString (Error ''boom'')])]\<rparr>)"
    by (rule mp)
  then have b: "callEach (Listener_call matchAll runAct) hello recorder (None :: unit option)
         [failing, saying ''good''] failingBot
     = callEach (Listener_call matchAll runAct) hello recorder (None :: unit option)
         [saying ''good'']
         (failingBot\<lparr>logger := [(Err, [''[Listener] callback failed'', ''bad'', ''Error: boom''])]\<rparr>)"
    by (simp add: failing_def l0 errorString_def)
  have c: "callEach (Listener_call matchAll runAct) hello recorder (None :: unit option)
         [saying ''good'']
         (failingBot\<lparr>logger := [(Err, [''[Listener] callback failed'', ''bad'', ''Error: boom''])]\<rparr>)
     = Inr (failingBot\<lparr>
            logger := [(Err, [''[Listener] callback failed'', ''bad'', ''Error: boom'']),
                       sendLine ''hello''],
            world := [(''send'', irc, [Arr [S ''hello'']])]\<rparr>)"
    by (simp add: Listener_call_def saying_def matchAll_def runAct_def send_irc failingBot_def
        bot_def hello_def)
  from a b c show ?thesis by simp
qed

section \<open>The base adapter\<close>

text \<open>
  C9. For every message, \<open>receive\<close> of the base adapter is \<open>receive\<close> of the robot
  with the message, the adapter itself and \<open>null\<close> for the callback; every call of a
  listener made through it carries this adapter and the callback \<open>null\<close>.
\<close>

theorem Adapter_receive_forwards:
  "Adapter_receive call this message rb = receive call message this None rb
   \<and> (\<forall>tr r. Adapter_receive call this message rb = Some (tr, r)
        \<longrightarrow> (\<forall>v \<in> set tr. snd (snd v) = (this, None)))"
proof (intro conjI allI impI)
  show "Adapter_receive call this message rb = receive call message this None rb"
    by (simp add: Adapter_receive_def)
next
  fix tr r
  assume A: "Adapter_receive call this message rb = Some (tr, r)"
  show "\<forall>v \<in> set tr. snd (snd v) = (this, None)"
  proof (cases message)
    case None
    with A show ?thesis by (auto simp: Adapter_receive_def receive_def)
  next
    case (Some msg)
    with A have D: "dispatch call msg this None 0 [] rb = Some (tr, r)"
      by (simp add: Adapter_receive_def receive_def)
    from dispatch_args_aux[OF D] show ?thesis by simp
  qed
qed

theorem Adapter_receive_forwards_witness:
  "Adapter_receive plainCall recorder (Some hello) quietBot
     = receive plainCall (Some hello) recorder (None :: unit option) quietBot
   \<and> Adapter_receive plainCall recorder (Some hello) quietBot
     = Some ([(quiet ''a'', hello, recorder, None :: unit option), (quiet ''b'', hello, recorder, None)],
             Inr quietBot)
   \<and> map (\<lambda>v. snd (snd v)) [(quiet ''a'', hello, recorder, None :: unit option), (quiet ''b'', hello, recorder, None)]
     = [(recorder, None), (recorder, None)]"
proof -
  have e: "Adapter_receive plainCall recorder (Some hello) quietBot
     = Some ([(quiet ''a'', hello, recorder, None :: unit option), (quiet ''b'', hello, recorder, None)],
             Inr quietBot)"
    by (simp add: Adapter_receive_def receive_def dispatch.simps quietBot_def quiet_def
        plainCall_def bot_def Let_def)
  note t = Adapter_receive_forwards[of plainCall recorder "Some hello" quietBot]
  from t have f: "Adapter_receive plainCall recorder (Some hello) quietBot
     = receive plainCall (Some hello) recorder (None :: unit option) quietBot" by blast
  from t e have "\<forall>v \<in> set [(quiet ''a'', hello, recorder, None :: unit option), (quiet ''b'', hello, recorder, None)].
        snd (snd v) = (recorder, None)" by blast
  then have g: "map (\<lambda>v. snd (snd v)) [(quiet ''a'', hello, recorder, None :: unit option), (quiet ''b'', hello, recorder, None)]
     = [(recorder, None), (recorder, None)]" by simp
  from f e g show ?thesis by (intro conjI)
qed

text \<open>
  C10. For every envelope and strings, \<open>emote\<close> of the base adapter calls the \<open>send\<close>
  of the object with the envelope and one argument, the array of the strings; \<open>send\<close>,
  \<open>reply\<close>, \<open>topic\<close> and \<open>play\<close> of the base adapter return and change nothing, and
  so does its \<open>emote\<close>.
\<close>

theorem Adapter_emote_delegates:
  "Adapter_emote this envelope strings w = send_m this envelope [Arr strings] w
   \<and> send_m Adapter envelope strings w = Inr w
   \<and> reply_m Adapter envelope strings w = Inr w
   \<and> topic_m Adapter envelope strings w = Inr w
   \<and> play_m Adapter envelope strings w = Inr w
   \<and> Adapter_emote Adapter envelope strings w = Inr w"
  by (simp add: Adapter_emote_def Adapter_def Adapter_send_def Adapter_reply_def
      Adapter_topic_def Adapter_play_def)

theorem Adapter_emote_delegates_witness:
  "Adapter_emote recorder slack [S ''waves'', S ''smiles''] []
     = Inr [(''send'', slack, [Arr [S ''waves'', S ''smiles'']])]
   \<and> send_m Adapter slack [S ''waves'', S ''smiles''] ([] :: backend) = Inr []
   \<and> Adapter_emote Adapter slack [S ''waves'', S ''smiles''] ([] :: backend) = Inr []"
  using Adapter_emote_delegates[of recorder slack "[S ''waves'', S ''smiles'']" "[] :: backend"]
        Adapter_emote_delegates[of Adapter slack "[S ''waves'', S ''smiles'']" "[] :: backend"]
  by (simp add: recorder_def)


end
